theory Spec2Isabelle
  imports Complex_Main
begin

section \<open>IPv4 prefixes (netaddr's IPNetwork)\<close>

text \<open>
  The source handles every CIDR through \<^verbatim>\<open>netaddr.IPNetwork\<close>: an address value of 32 bits,
  kept as given (host bits included), and a prefix length. A CIDR string of the document is
  represented by the network it denotes.
\<close>

record ipnetwork =
  net_value :: nat
  prefixlen :: nat

definition valid_net :: "ipnetwork \<Rightarrow> bool" where
  "valid_net n = (net_value n < 2 ^ 32 \<and> prefixlen n \<le> 32)"

text \<open>\<^verbatim>\<open>IPNetwork.size\<close>, \<^verbatim>\<open>.first\<close>, \<^verbatim>\<open>.last\<close> and \<^verbatim>\<open>.cidr\<close>.\<close>

definition net_size :: "ipnetwork \<Rightarrow> nat" where
  "net_size n = 2 ^ (32 - prefixlen n)"

definition net_first :: "ipnetwork \<Rightarrow> nat" where
  "net_first n = (net_value n div net_size n) * net_size n"

definition net_last :: "ipnetwork \<Rightarrow> nat" where
  "net_last n = net_first n + net_size n - 1"

definition net_cidr :: "ipnetwork \<Rightarrow> ipnetwork" where
  "net_cidr n = n\<lparr>net_value := net_first n\<rparr>"

text \<open>The addresses a network covers.\<close>

definition net_addrs :: "ipnetwork \<Rightarrow> nat set" where
  "net_addrs n = {net_first n ..< net_first n + net_size n}"

text \<open>
  \<^verbatim>\<open>IPNetwork(other) in IPNetwork(self)\<close>: both values shifted right by the host bits of
  \<^verbatim>\<open>self\<close> agree, and \<^verbatim>\<open>self\<close> has the shorter prefix.
\<close>

definition net_contains :: "ipnetwork \<Rightarrow> ipnetwork \<Rightarrow> bool" where
  "net_contains self other =
     (net_value self div 2 ^ (32 - prefixlen self) = net_value other div 2 ^ (32 - prefixlen self)
      \<and> prefixlen self \<le> prefixlen other)"

text \<open>
  \<^verbatim>\<open>IPNetwork.subnet(prefixlen)\<close>: nothing when the requested length is shorter than the
  network's own, otherwise the \<open>2 ^ (new - own)\<close> subnets from the first address upwards.
  A length above 32 makes netaddr raise; the handlers model that case themselves.
\<close>

definition subnet :: "ipnetwork \<Rightarrow> nat \<Rightarrow> ipnetwork list" where
  "subnet n newlen =
     (if prefixlen n \<le> newlen
      then map (\<lambda>i. \<lparr>net_value = net_first n + 2 ^ (32 - newlen) * i, prefixlen = newlen\<rparr>)
               [0 ..< 2 ^ (32 - prefixlen n) div 2 ^ (32 - newlen)]
      else [])"

section \<open>Sets of addresses (netaddr's IPSet)\<close>

text \<open>
  An IPSet keeps a compacted list of CIDR blocks. It is represented here by the binary trie
  over the 32 address bits whose full leaves are exactly those blocks: \<open>AllAddr\<close> is a block
  wholly inside the set, \<open>NoAddr\<close> one wholly outside, \<open>Split l r\<close> divides a block into its
  lower and upper half. Compaction is the normal form kept by \<open>tnode\<close>.
\<close>

datatype ipset = NoAddr | AllAddr | Split ipset ipset

fun tnode :: "ipset \<Rightarrow> ipset \<Rightarrow> ipset" where
  "tnode NoAddr NoAddr = NoAddr"
| "tnode AllAddr AllAddr = AllAddr"
| "tnode l r = Split l r"

fun t_union :: "ipset \<Rightarrow> ipset \<Rightarrow> ipset" where
  "t_union NoAddr t = t"
| "t_union t NoAddr = t"
| "t_union AllAddr t = AllAddr"
| "t_union t AllAddr = AllAddr"
| "t_union (Split a b) (Split c d) = tnode (t_union a c) (t_union b d)"

fun t_inter :: "ipset \<Rightarrow> ipset \<Rightarrow> ipset" where
  "t_inter NoAddr t = NoAddr"
| "t_inter t NoAddr = NoAddr"
| "t_inter AllAddr t = t"
| "t_inter t AllAddr = t"
| "t_inter (Split a b) (Split c d) = tnode (t_inter a c) (t_inter b d)"

fun t_compl :: "ipset \<Rightarrow> ipset" where
  "t_compl NoAddr = AllAddr"
| "t_compl AllAddr = NoAddr"
| "t_compl (Split a b) = Split (t_compl a) (t_compl b)"

fun t_xor :: "ipset \<Rightarrow> ipset \<Rightarrow> ipset" where
  "t_xor NoAddr t = t"
| "t_xor t NoAddr = t"
| "t_xor AllAddr t = t_compl t"
| "t_xor t AllAddr = t_compl t"
| "t_xor (Split a b) (Split c d) = tnode (t_xor a c) (t_xor b d)"

text \<open>
  The trie of one network: \<open>h\<close> is the height of the block being divided, \<open>k\<close> the number of
  prefix bits still to follow, \<open>v\<close> the offset of the network's value inside the block.
\<close>

fun net_trie :: "nat \<Rightarrow> nat \<Rightarrow> nat \<Rightarrow> ipset" where
  "net_trie h 0 v = AllAddr"
| "net_trie 0 (Suc k) v = AllAddr"
| "net_trie (Suc h) (Suc k) v =
     (if v < 2 ^ h then Split (net_trie h k v) NoAddr
      else Split NoAddr (net_trie h k (v - 2 ^ h)))"

definition ipset_of_net :: "ipnetwork \<Rightarrow> ipset" where
  "ipset_of_net n = net_trie 32 (prefixlen n) (net_value n)"

text \<open>\<^verbatim>\<open>IPSet(iterable)\<close>: the union of the listed networks.\<close>

definition IPSet :: "ipnetwork list \<Rightarrow> ipset" where
  "IPSet ns = foldl (\<lambda>s n. t_union s (ipset_of_net n)) NoAddr ns"

text \<open>\<^verbatim>\<open>IPSet.iter_cidrs()\<close>: the blocks of the set, sorted by address.\<close>

fun cidrs :: "ipset \<Rightarrow> nat \<Rightarrow> nat \<Rightarrow> ipnetwork list" where
  "cidrs NoAddr base h = []"
| "cidrs AllAddr base h = [\<lparr>net_value = base, prefixlen = 32 - h\<rparr>]"
| "cidrs (Split l r) base 0 = []"
| "cidrs (Split l r) base (Suc h) = cidrs l base h @ cidrs r (base + 2 ^ h) h"

definition iter_cidrs :: "ipset \<Rightarrow> ipnetwork list" where
  "iter_cidrs s = cidrs s 0 32"

text \<open>
  \<^verbatim>\<open>network in ipset\<close>: netaddr looks the network and each of its supernets up among the
  blocks of the set, so the answer is whether one block of the set covers the network.
\<close>

fun t_contains :: "ipset \<Rightarrow> nat \<Rightarrow> nat \<Rightarrow> nat \<Rightarrow> bool" where
  "t_contains NoAddr h k v = False"
| "t_contains AllAddr h k v = True"
| "t_contains (Split l r) h 0 v = False"
| "t_contains (Split l r) 0 (Suc k) v = False"
| "t_contains (Split l r) (Suc h) (Suc k) v =
     (if v < 2 ^ h then t_contains l h k v else t_contains r h k (v - 2 ^ h))"

definition ipset_contains :: "ipset \<Rightarrow> ipnetwork \<Rightarrow> bool" where
  "ipset_contains s n = t_contains s 32 (prefixlen n) (net_value n)"

text \<open>\<^verbatim>\<open>a.issubset(b)\<close>: every block of \<open>a\<close> is in \<open>b\<close>.\<close>

definition issubset :: "ipset \<Rightarrow> ipset \<Rightarrow> bool" where
  "issubset a b = list_all (ipset_contains b) (iter_cidrs a)"

text \<open>The addresses of a set: the meaning of the trie below a block of height \<open>h\<close> at \<open>base\<close>.\<close>

fun addrs :: "ipset \<Rightarrow> nat \<Rightarrow> nat \<Rightarrow> nat set" where
  "addrs NoAddr base h = {}"
| "addrs AllAddr base h = {base ..< base + 2 ^ h}"
| "addrs (Split l r) base 0 = {}"
| "addrs (Split l r) base (Suc h) = addrs l base h \<union> addrs r (base + 2 ^ h) h"

definition ipset_addrs :: "ipset \<Rightarrow> nat set" where
  "ipset_addrs s = addrs s 0 32"

text \<open>Compacted tries of height at most \<open>h\<close>.\<close>

fun compacted :: "ipset \<Rightarrow> nat \<Rightarrow> bool" where
  "compacted NoAddr h = True"
| "compacted AllAddr h = True"
| "compacted (Split l r) 0 = False"
| "compacted (Split l r) (Suc h) =
     (compacted l h \<and> compacted r h \<and> \<not> (l = NoAddr \<and> r = NoAddr) \<and> \<not> (l = AllAddr \<and> r = AllAddr))"


text \<open>The offset of the block of \<open>2 ^ (h - k)\<close> addresses around \<open>v\<close>, and the parent of a network.\<close>

definition block_offset :: "nat \<Rightarrow> nat \<Rightarrow> nat \<Rightarrow> nat" where
  "block_offset h k v = (v div 2 ^ (h - k)) * 2 ^ (h - k)"

definition supernet :: "ipnetwork \<Rightarrow> ipnetwork" where
  "supernet n = n\<lparr>prefixlen := prefixlen n - 1\<rparr>"

section \<open>The Space document\<close>

datatype error =
    HTTPException nat string
  | HTTPException_cidr nat string ipnetwork
  | HTTPException_names nat string "string list"
  | ValueError
  | TypeError
  | IndexError
  | KeyError
  | AddrFormatError

text \<open>
  An error is an \<^verbatim>\<open>HTTPException\<close> with its status code and detail, or a Python exception that
  no handler catches. \<open>HTTPException_cidr\<close> is an \<^verbatim>\<open>HTTPException\<close> whose detail is the given
  template with \<^verbatim>\<open>{}\<close> filled by the text of the given network, \<open>HTTPException_names\<close> one
  whose template is filled by a list of names (Python lists them in no specified order).
\<close>

record reservation =
  resv_id :: string
  resv_cidr :: ipnetwork
  resv_desc :: "string option"
  createdOn :: real
  createdBy :: string
  settledOn :: "real option"
  settledBy :: "string option"
  resv_status :: string

record ext_endpoint =
  endpoint_name :: string
  endpoint_desc :: string
  endpoint_ip :: nat

record ext_subnet =
  subnet_name :: string
  subnet_desc :: string
  subnet_cidr :: ipnetwork
  subnet_endpoints :: "ext_endpoint list"

record external =
  ext_name :: string
  ext_desc :: string
  ext_cidr :: ipnetwork
  ext_subnets :: "ext_subnet list"

record vnet_ref =
  vnet_id :: string
  vnet_active :: bool

record block =
  block_name :: string
  block_cidr :: ipnetwork
  block_vnets :: "vnet_ref list"
  block_externals :: "external list"
  block_resv :: "reservation list"

record space =
  space_id :: string
  space_name :: string
  space_desc :: string
  space_blocks :: "block list"

text \<open>An entry of the network inventory returned by \<^verbatim>\<open>get_network\<close>.\<close>

record network =
  network_id :: string
  network_prefixes :: "ipnetwork list"

text \<open>A CIDR string received in a request: \<^verbatim>\<open>IPNetwork(s)\<close> either raises or yields a network.\<close>

datatype cidr_text = Unparsable | Parsed ipnetwork

text \<open>\<^verbatim>\<open>str.lower()\<close> on the ASCII names the name patterns admit.\<close>

definition lower_char :: "char \<Rightarrow> char" where
  "lower_char c =
     (case map_of (zip ''ABCDEFGHIJKLMNOPQRSTUVWXYZ'' ''abcdefghijklmnopqrstuvwxyz'') c of
        None \<Rightarrow> c
      | Some l \<Rightarrow> l)"

definition lower :: "string \<Rightarrow> string" where
  "lower s = map lower_char s"

text \<open>\<^verbatim>\<open>not r['settledOn']\<close>: the field is \<^verbatim>\<open>None\<close> or a POSIX time, and zero is falsy too.\<close>

definition unsettled :: "reservation \<Rightarrow> bool" where
  "unsettled r = (case settledOn r of None \<Rightarrow> True | Some t \<Rightarrow> t = 0)"

text \<open>
  \<^verbatim>\<open>next((i for i, item in enumerate(xs) if P(item)), None)\<close>, \<^verbatim>\<open>del xs[i]\<close>, and the update
  of the first element that satisfies \<open>P\<close>: the source mutates the object \<^verbatim>\<open>next(...)\<close>
  returned, which is that element of the list.
\<close>

fun index_of :: "('a \<Rightarrow> bool) \<Rightarrow> 'a list \<Rightarrow> nat option" where
  "index_of P [] = None"
| "index_of P (x # xs) = (if P x then Some 0 else map_option Suc (index_of P xs))"

definition del_at :: "nat \<Rightarrow> 'a list \<Rightarrow> 'a list" where
  "del_at i xs = take i xs @ drop (Suc i) xs"

fun update_first :: "('a \<Rightarrow> bool) \<Rightarrow> ('a \<Rightarrow> 'a) \<Rightarrow> 'a list \<Rightarrow> 'a list" where
  "update_first P f [] = []"
| "update_first P f (x # xs) = (if P x then f x # xs else x # update_first P f xs)"

definition find_block :: "space \<Rightarrow> string \<Rightarrow> block option" where
  "find_block sp name = find (\<lambda>x. lower (block_name x) = lower name) (space_blocks sp)"

text \<open>
  Modelled from the spec: the document-store helpers \<^verbatim>\<open>cosmos_query\<close> and \<^verbatim>\<open>cosmos_replace\<close>
  of \<^verbatim>\<open>app.routers.common.helper\<close> are not among the sources. The store holds the Space
  documents of the tenant; the query by name returns those whose lower-cased name matches,
  and a replace puts the new document in the place of the one with the old document's id.
\<close>

definition query_space :: "space list \<Rightarrow> string \<Rightarrow> space list" where
  "query_space store name = filter (\<lambda>c. lower (space_name c) = lower name) store"

definition cosmos_replace :: "space list \<Rightarrow> space \<Rightarrow> space \<Rightarrow> space list" where
  "cosmos_replace store old new = map (\<lambda>c. if space_id c = space_id old then new else c) store"

section \<open>The allocator\<close>

text \<open>
  \<^verbatim>\<open>block_all_cidrs\<close> as the reservation handlers build it: the prefixes of each attached
  vnet that lie inside the block (the vnet is looked up in the inventory by lower-cased id),
  then the unsettled reservations, then the externals.
\<close>

definition vnet_prefixes :: "network list \<Rightarrow> block \<Rightarrow> vnet_ref \<Rightarrow> ipnetwork list" where
  "vnet_prefixes net_list target_block v =
     (case find (\<lambda>x. lower (network_id x) = lower (vnet_id v)) net_list of
        None \<Rightarrow> []
      | Some target \<Rightarrow> filter (net_contains (block_cidr target_block)) (network_prefixes target))"

definition block_all_cidrs :: "network list \<Rightarrow> block \<Rightarrow> ipnetwork list" where
  "block_all_cidrs net_list target_block =
     concat (map (vnet_prefixes net_list target_block) (block_vnets target_block))
     @ map resv_cidr (filter unsettled (block_resv target_block))
     @ map ext_cidr (block_externals target_block)"

definition available_set :: "network list \<Rightarrow> block \<Rightarrow> ipset" where
  "available_set net_list target_block =
     t_xor (IPSet [block_cidr target_block]) (IPSet (block_all_cidrs net_list target_block))"

text \<open>\<^verbatim>\<open>xs[available_slicer]\<close> and \<^verbatim>\<open>list(...)[next_selector]\<close>.\<close>

definition available_slicer :: "bool \<Rightarrow> 'a list \<Rightarrow> 'a list" where
  "available_slicer reverse_search xs = (if reverse_search then rev xs else xs)"

definition next_selector :: "bool \<Rightarrow> 'a list \<Rightarrow> error + 'a" where
  "next_selector reverse_search xs =
     (case xs of [] \<Rightarrow> Inl IndexError
      | y # ys \<Rightarrow> Inr (if reverse_search then last (y # ys) else y))"

text \<open>
  \<^verbatim>\<open>list(available_block.subnet(req.size))\<close>: netaddr builds each subnet from the string
  \<^verbatim>\<open>'%s/%d'\<close>, which raises for a length above 32.
\<close>

definition subnet_list :: "ipnetwork \<Rightarrow> nat \<Rightarrow> error + ipnetwork list" where
  "subnet_list n newlen = (if 32 < newlen then Inl AddrFormatError else Inr (subnet n newlen))"

text \<open>
  The choice of the free block in \<^verbatim>\<open>create_block_reservation\<close>: \<^verbatim>\<open>max\<close> of an empty
  sequence raises ValueError there.
\<close>

definition select_available_block :: "bool \<Rightarrow> bool \<Rightarrow> nat \<Rightarrow> ipset \<Rightarrow> error + ipnetwork option" where
  "select_available_block smallest reverse_search sz avail =
     (if smallest then
        (let cidr_list = filter (\<lambda>x. prefixlen x \<le> sz) (available_slicer reverse_search (iter_cidrs avail))
         in case cidr_list of
              [] \<Rightarrow> Inl ValueError
            | c # cs \<Rightarrow>
                (let min_mask = fold max (map prefixlen cs) (prefixlen c)
                 in Inr (find (\<lambda>network. prefixlen network = min_mask) cidr_list)))
      else Inr (find (\<lambda>net. prefixlen net \<le> sz) (available_slicer reverse_search (iter_cidrs avail))))"


section \<open>Reservations\<close>

record block_cidr_req =
  req_size :: nat
  req_cidr :: "cidr_text option"
  req_desc :: "string option"
  req_reverse_search :: bool
  req_smallest_cidr :: bool

record jwt_claims =
  preferred_username :: "string option"
  oid :: "string option"

definition creator_id :: "jwt_claims \<Rightarrow> error + string" where
  "creator_id decoded =
     (case preferred_username decoded of
        Some u \<Rightarrow> Inr u
      | None \<Rightarrow> (case oid decoded of Some i \<Rightarrow> Inr (''spn:'' @ i) | None \<Rightarrow> Inl KeyError))"

definition new_cidr :: "string \<Rightarrow> real \<Rightarrow> string \<Rightarrow> string option \<Rightarrow> ipnetwork \<Rightarrow> reservation" where
  "new_cidr uuid now creator desc next_cidr =
     \<lparr>resv_id = uuid, resv_cidr = next_cidr, resv_desc = desc, createdOn = now,
      createdBy = creator, settledOn = None, settledBy = None, resv_status = ''wait''\<rparr>"

text \<open>The response adds the names of the space and of the block to the reservation.\<close>

record reservation_expand =
  resp_resv :: reservation
  resp_space :: string
  resp_block :: string

definition append_resv :: "reservation \<Rightarrow> block \<Rightarrow> block" where
  "append_resv r b = b\<lparr>block_resv := block_resv b @ [r]\<rparr>"

text \<open>
  \<^verbatim>\<open>create_block_reservation\<close> up to its write: the result is the document read, the document
  to write and the response. \<open>uuid\<close> and \<open>now\<close> are what \<^verbatim>\<open>shortuuid.uuid()\<close> and
  \<^verbatim>\<open>time.time()\<close> return.
\<close>

definition create_block_reservation_body ::
  "network list \<Rightarrow> string \<Rightarrow> real \<Rightarrow> jwt_claims \<Rightarrow> block_cidr_req \<Rightarrow> string \<Rightarrow> string \<Rightarrow> space list
   \<Rightarrow> error + (space \<times> space \<times> reservation_expand)" where
  "create_block_reservation_body net_list uuid now decoded req space block store =
     (case query_space store space of
        [] \<Rightarrow> Inl (HTTPException 400 ''Invalid space name.'')
      | target_space # _ \<Rightarrow>
     (case find_block target_space block of
        None \<Rightarrow> Inl (HTTPException 400 ''Invalid block name.'')
      | Some target_block \<Rightarrow>
     (let avail = available_set net_list target_block;
          next_cidr =
            (case req_cidr req of
               Some Unparsable \<Rightarrow> Inl (HTTPException 400 ''Invalid network CIDR format.'')
             | Some (Parsed n) \<Rightarrow>
                 (if \<not> ipset_contains avail n
                  then Inl (HTTPException 409 ''Requested CIDR overlaps existing network(s).'')
                  else Inr n)
             | None \<Rightarrow>
                 (case select_available_block (req_smallest_cidr req) (req_reverse_search req)
                         (req_size req) avail of
                    Inl e \<Rightarrow> Inl e
                  | Inr None \<Rightarrow>
                      Inl (HTTPException 500 ''Network of requested size unavailable in target block.'')
                  | Inr (Some available_block) \<Rightarrow>
                      (case subnet_list available_block (req_size req) of
                         Inl e \<Rightarrow> Inl e
                       | Inr subnets \<Rightarrow> next_selector (req_reverse_search req) subnets)))
      in case next_cidr of
           Inl e \<Rightarrow> Inl e
         | Inr cidr \<Rightarrow>
        (case creator_id decoded of
           Inl e \<Rightarrow> Inl e
         | Inr creator \<Rightarrow>
        (let r = new_cidr uuid now creator (req_desc req) cidr;
             written = target_space\<lparr>space_blocks :=
                         update_first (\<lambda>x. lower (block_name x) = lower block) (append_resv r)
                           (space_blocks target_space)\<rparr>
         in Inr (target_space, written,
                 \<lparr>resp_resv = r, resp_space = space_name target_space,
                  resp_block = block_name target_block\<rparr>))))))"

text \<open>The handler on the store: the write is its last step.\<close>

definition commit :: "space list \<Rightarrow> error + (space \<times> space \<times> 'r) \<Rightarrow> (error + 'r) \<times> space list" where
  "commit store res =
     (case res of
        Inl e \<Rightarrow> (Inl e, store)
      | Inr (old, new, resp) \<Rightarrow> (Inr resp, cosmos_replace store old new))"

definition create_block_reservation ::
  "network list \<Rightarrow> string \<Rightarrow> real \<Rightarrow> jwt_claims \<Rightarrow> block_cidr_req \<Rightarrow> string \<Rightarrow> string \<Rightarrow> space list
   \<Rightarrow> (error + reservation_expand) \<times> space list" where
  "create_block_reservation net_list uuid now decoded req space block store =
     commit store (create_block_reservation_body net_list uuid now decoded req space block store)"

section \<open>Invariant I3\<close>

fun pairwise_disjoint :: "ipnetwork list \<Rightarrow> bool" where
  "pairwise_disjoint [] = True"
| "pairwise_disjoint (c # cs) =
     ((\<forall>d\<in>set cs. net_addrs c \<inter> net_addrs d = {}) \<and> pairwise_disjoint cs)"

definition I3 :: "network list \<Rightarrow> block \<Rightarrow> bool" where
  "I3 net_list b =
     ((\<forall>c\<in>set (block_all_cidrs net_list b). net_addrs c \<subseteq> net_addrs (block_cidr b))
      \<and> pairwise_disjoint (block_all_cidrs net_list b))"

text \<open>Every CIDR of the block and of its claims is a parsed IPv4 network.\<close>

definition valid_block :: "network list \<Rightarrow> block \<Rightarrow> bool" where
  "valid_block net_list b =
     (valid_net (block_cidr b) \<and> (\<forall>c\<in>set (block_all_cidrs net_list b). valid_net c))"

section \<open>Space utilization\<close>

text \<open>
  \<^verbatim>\<open>get_space\<close> with \<^verbatim>\<open>expand = false\<close>. The view returned carries the size and the used count
  of the space and of each block; for a caller who is not an admin the reservations of each
  block are restricted to the caller's own.
\<close>

record block_view =
  view_block :: block
  view_size :: "nat option"
  view_used :: "nat option"

record space_view =
  view_space :: space
  view_blocks :: "block_view list"
  space_size :: "nat option"
  space_used :: "nat option"

text \<open>The in-block prefixes of a vnet, the vnet being looked up by its exact id.\<close>

definition net_prefixes :: "network list \<Rightarrow> block \<Rightarrow> vnet_ref \<Rightarrow> ipnetwork list" where
  "net_prefixes nets block net =
     (case find (\<lambda>i. network_id i = vnet_id net) nets of
        None \<Rightarrow> []
      | Some target_net \<Rightarrow> filter (net_contains (block_cidr block)) (network_prefixes target_net))"

definition own_resv :: "bool \<Rightarrow> string \<Rightarrow> block \<Rightarrow> block" where
  "own_resv is_admin user_name block =
     (if is_admin then block
      else block\<lparr>block_resv := filter (\<lambda>x. createdBy x = user_name) (block_resv block)\<rparr>)"

text \<open>
  The loop over the blocks with \<^verbatim>\<open>utilization = true\<close>; the pair is the running
  \<^verbatim>\<open>target_space['size']\<close> and \<^verbatim>\<open>target_space['used']\<close>. The statement executed for each
  external is \<^verbatim>\<open>space['used'] += IPNetwork(ext['cidr']).size\<close>, where \<^verbatim>\<open>space\<close> is the path
  parameter, a string: subscripting it with \<^verbatim>\<open>'used'\<close> raises TypeError.
\<close>

fun utilization_loop ::
  "network list \<Rightarrow> bool \<Rightarrow> string \<Rightarrow> block list \<Rightarrow> nat \<times> nat \<Rightarrow> error + (block_view list \<times> nat \<times> nat)" where
  "utilization_loop nets is_admin user_name [] (sz, used) = Inr ([], sz, used)"
| "utilization_loop nets is_admin user_name (block # rest) (sz, used) =
     (let prefix_sizes = map net_size (concat (map (net_prefixes nets block) (block_vnets block)));
          block_used = sum_list prefix_sizes
      in if block_externals block \<noteq> [] then Inl TypeError
         else (case utilization_loop nets is_admin user_name rest
                      (sz + net_size (block_cidr block), used + block_used) of
                 Inl e \<Rightarrow> Inl e
               | Inr (views, totals) \<Rightarrow>
                   Inr (\<lparr>view_block = own_resv is_admin user_name block,
                         view_size = Some (net_size (block_cidr block)),
                         view_used = Some block_used\<rparr> # views, totals)))"

definition get_space ::
  "network list \<Rightarrow> bool \<Rightarrow> bool \<Rightarrow> string \<Rightarrow> string \<Rightarrow> space list \<Rightarrow> error + space_view" where
  "get_space nets utilization is_admin user_name space store =
     (case query_space store space of
        [] \<Rightarrow> Inl (HTTPException 400 ''Invalid space name.'')
      | target_space # _ \<Rightarrow>
          (if utilization then
             (case utilization_loop nets is_admin user_name (space_blocks target_space) (0, 0) of
                Inl e \<Rightarrow> Inl e
              | Inr (views, sz, used) \<Rightarrow>
                  Inr \<lparr>view_space = target_space, view_blocks = views,
                       space_size = Some sz, space_used = Some used\<rparr>)
           else
             Inr \<lparr>view_space = target_space,
                  view_blocks = map (\<lambda>block. \<lparr>view_block = own_resv is_admin user_name block,
                                              view_size = None, view_used = None\<rparr>)
                                    (space_blocks target_space),
                  space_size = None, space_used = None\<rparr>))"

section \<open>Networks available to a block\<close>

datatype available_resp = Expanded "network list" | Ids "string list"

text \<open>
  One step of the loop that removes the vnets attached elsewhere: \<^verbatim>\<open>if net_index:\<close> is
  false for \<^verbatim>\<open>None\<close> and for the index 0.
\<close>

definition drop_assigned :: "string \<Rightarrow> string \<Rightarrow> network list \<Rightarrow> string \<times> string \<times> string \<Rightarrow> network list" where
  "drop_assigned space block available_vnets iter =
     (case iter of (space_iter_name, block_iter_name, net_iter_id) \<Rightarrow>
        if space_iter_name \<noteq> space \<and> block_iter_name \<noteq> block then
          (case index_of (\<lambda>item. network_id item = net_iter_id) available_vnets of
             None \<Rightarrow> available_vnets
           | Some net_index \<Rightarrow>
               if net_index \<noteq> 0 then del_at net_index available_vnets else available_vnets)
        else available_vnets)"

definition attached_vnets :: "space list \<Rightarrow> (string \<times> string \<times> string) list" where
  "attached_vnets space_query =
     concat (map (\<lambda>space_iter.
       concat (map (\<lambda>block_iter.
         map (\<lambda>net_iter. (space_name space_iter, block_name block_iter, vnet_id net_iter))
             (block_vnets block_iter))
         (space_blocks space_iter)))
       space_query)"

definition available_block_nets ::
  "network list \<Rightarrow> bool \<Rightarrow> string \<Rightarrow> string \<Rightarrow> space list \<Rightarrow> error + available_resp" where
  "available_block_nets net_list expand space block space_query =
     (case find (\<lambda>x. lower (space_name x) = lower space) space_query of
        None \<Rightarrow> Inl (HTTPException 400 ''Invalid space name.'')
      | Some target_space \<Rightarrow>
     (case find_block target_space block of
        None \<Rightarrow> Inl (HTTPException 400 ''Invalid block name.'')
      | Some target_block \<Rightarrow>
     (let resv_cidrs = IPSet (map resv_cidr (filter unsettled (block_resv target_block)));
          ext_cidrs = IPSet (map ext_cidr (block_externals target_block));
          excluded_cidrs = t_union resv_cidrs ext_cidrs;
          valid = (\<lambda>net. filter (\<lambda>x. net_contains (block_cidr target_block) x
                                      \<and> t_inter (IPSet [x]) excluded_cidrs = NoAddr)
                              (network_prefixes net));
          candidates = map (\<lambda>net. net\<lparr>network_prefixes := valid net\<rparr>)
                           (filter (\<lambda>net. valid net \<noteq> []) net_list);
          available_vnets = foldl (drop_assigned space block) candidates (attached_vnets space_query)
      in Inr (if expand then Expanded available_vnets else Ids (map network_id available_vnets)))))"

section \<open>Patching a block\<close>

text \<open>
  An entry of the JSON patch: the two allowed operations, and any other pair of \<^verbatim>\<open>op\<close> and
  \<^verbatim>\<open>path\<close>, which the scrubber drops.
\<close>

datatype patch_op = ReplaceName string | ReplaceCidr cidr_text | OtherOp

text \<open>
  \<^verbatim>\<open>re.match(BLOCK_NAME_REGEX, name)\<close>: 1 to 64 characters of the class, neither the first nor
  the last of them one of \<^verbatim>\<open>. _ -\<close>; \<^verbatim>\<open>$\<close> also matches before one final newline.
\<close>

definition name_chars :: "char list" where
  "name_chars = ''abcdefghijklmnopqrstuvwxyzABCDEFGHIJKLMNOPQRSTUVWXYZ0123456789._-''"

definition regex_match :: "char list \<Rightarrow> char list \<Rightarrow> nat \<Rightarrow> string \<Rightarrow> bool" where
  "regex_match cls edge n s =
     (let t = (if s \<noteq> [] \<and> last s = CHR 0x0A then butlast s else s)
      in t \<noteq> [] \<and> length t \<le> n \<and> list_all (\<lambda>c. c \<in> set cls) t
         \<and> hd t \<notin> set edge \<and> last t \<notin> set edge)"

definition name_regex_match :: "string \<Rightarrow> bool" where
  "name_regex_match s = regex_match name_chars ''._-'' 64 s"

definition desc_regex_match :: "string \<Rightarrow> bool" where
  "desc_regex_match s = regex_match (CHR '' '' # CHR ''/'' # name_chars) '' /._-'' 128 s"

definition valid_block_name_update :: "string \<Rightarrow> string \<Rightarrow> string \<Rightarrow> space list \<Rightarrow> error + bool" where
  "valid_block_name_update name space_name' block_name' store =
     (let other_blocks =
            map (\<lambda>t. lower (block_name t))
              (filter (\<lambda>t. lower (block_name t) \<noteq> lower block_name')
                 (concat (map space_blocks (query_space store space_name'))))
      in if lower name \<in> set other_blocks
         then Inl (HTTPException 400 ''Updated Block name cannot match existing Blocks within the Space.'')
         else Inr (name_regex_match name))"

text \<open>
  The CIDRs \<^verbatim>\<open>valid_block_cidr_update\<close> collects: a block whose name differs from the path
  parameter (compared as it is, not lower-cased) counts as another block of the space; the
  block of that very name contributes every prefix of its vnets (looked up by exact id), its
  externals and its unsettled reservations.
\<close>

definition space_cidrs :: "string \<Rightarrow> block list \<Rightarrow> ipnetwork list" where
  "space_cidrs block_name' blocks =
     map block_cidr (filter (\<lambda>block. block_name block \<noteq> block_name') blocks)"

definition block_cidrs :: "network list \<Rightarrow> string \<Rightarrow> block list \<Rightarrow> ipnetwork list" where
  "block_cidrs net_list block_name' blocks =
     concat (map (\<lambda>block.
        concat (map (\<lambda>vnet. case find (\<lambda>i. network_id i = vnet_id vnet) net_list of
                               None \<Rightarrow> [] | Some target_net \<Rightarrow> network_prefixes target_net)
                    (block_vnets block))
        @ map ext_cidr (block_externals block)
        @ map resv_cidr (filter unsettled (block_resv block)))
       (filter (\<lambda>block. \<not> block_name block \<noteq> block_name') blocks))"

definition valid_block_cidr_update ::
  "network list \<Rightarrow> cidr_text \<Rightarrow> string \<Rightarrow> string \<Rightarrow> space list \<Rightarrow> error + bool" where
  "valid_block_cidr_update net_list cidr space_name' block_name' store =
     (let blocks = concat (map space_blocks (query_space store space_name'));
          target_block = find (\<lambda>x. lower (block_name x) = lower block_name') blocks;
          checks =
            (\<lambda>n. if t_inter (IPSet (space_cidrs block_name' blocks)) (IPSet [n]) \<noteq> NoAddr
                  then Inl (HTTPException 400
                         ''Updated CIDR cannot overlap other Block CIDRs within the Space.'')
                  else if \<not> issubset (IPSet (block_cidrs net_list block_name' blocks)) (IPSet [n])
                  then Inr False
                  else Inr True)
      in case target_block of
           Some target \<Rightarrow>
             (if cidr = Parsed (block_cidr target) then Inr True
              else (case cidr of
                      Unparsable \<Rightarrow>
                        Inl (HTTPException 400
                          ''Updated Block CIDR must be in valid CIDR notation (x.x.x.x/x).'')
                    | Parsed n \<Rightarrow>
                        if net_cidr n \<noteq> n
                        then Inl (HTTPException_cidr 400 ''Invalid CIDR value, try '{}' instead.''
                                    (net_cidr n))
                        else checks n))
         | None \<Rightarrow> (case cidr of Unparsable \<Rightarrow> Inl AddrFormatError | Parsed n \<Rightarrow> checks n))"

fun scrub_block_patch ::
  "network list \<Rightarrow> patch_op list \<Rightarrow> string \<Rightarrow> string \<Rightarrow> space list \<Rightarrow> error + patch_op list" where
  "scrub_block_patch net_list [] space_name' block_name' store = Inr []"
| "scrub_block_patch net_list (item # patch) space_name' block_name' store =
     (let valid =
            (case item of
               ReplaceName v \<Rightarrow>
                 (case valid_block_name_update v space_name' block_name' store of
                    Inl e \<Rightarrow> Inl e
                  | Inr ok \<Rightarrow>
                      if ok then Inr [item]
                      else Inl (HTTPException 400 ''Block name can be a maximum of 64 characters and may contain alphanumerics, underscores, hypens, slashes, and periods.''))
             | ReplaceCidr v \<Rightarrow>
                 (case valid_block_cidr_update net_list v space_name' block_name' store of
                    Inl e \<Rightarrow> Inl e
                  | Inr ok \<Rightarrow>
                      if ok then Inr [item]
                      else Inl (HTTPException 400 ''Block CIDR must be in valid CIDR notation (x.x.x.x/x), cannot overlap existing Blocks within the Space and must contain all existing Virtual Networks, External Networks and unfulfilled Reservations within the Block.''))
             | OtherOp \<Rightarrow> Inr [])
      in case valid of
           Inl e \<Rightarrow> Inl e
         | Inr kept \<Rightarrow>
             (case scrub_block_patch net_list patch space_name' block_name' store of
                Inl e \<Rightarrow> Inl e
              | Inr scrubbed \<Rightarrow> Inr (kept @ scrubbed)))"

text \<open>Applying a scrubbed patch to the block, entry by entry.\<close>

fun apply_patch_op :: "patch_op \<Rightarrow> block \<Rightarrow> block" where
  "apply_patch_op (ReplaceName v) b = b\<lparr>block_name := v\<rparr>"
| "apply_patch_op (ReplaceCidr (Parsed n)) b = b\<lparr>block_cidr := n\<rparr>"
| "apply_patch_op (ReplaceCidr Unparsable) b = b"
| "apply_patch_op OtherOp b = b"

definition update_block_body ::
  "network list \<Rightarrow> bool \<Rightarrow> patch_op list \<Rightarrow> string \<Rightarrow> string \<Rightarrow> space list
   \<Rightarrow> error + (space \<times> space \<times> block)" where
  "update_block_body net_list is_admin updates space block store =
     (if \<not> is_admin then Inl (HTTPException 403 ''This API is admin restricted.'')
      else case query_space store space of
        [] \<Rightarrow> Inl (HTTPException 400 ''Invalid space name.'')
      | target_space # _ \<Rightarrow>
     (case find_block target_space block of
        None \<Rightarrow> Inl (HTTPException 400 ''Invalid block name.'')
      | Some update_block \<Rightarrow>
     (case scrub_block_patch net_list updates space block store of
        Inl e \<Rightarrow> Inl e
      | Inr scrubbed_patch \<Rightarrow>
          (let patched = (\<lambda>b. foldl (\<lambda>b item. apply_patch_op item b) b scrubbed_patch)
           in Inr (target_space,
                   target_space\<lparr>space_blocks :=
                     update_first (\<lambda>x. lower (block_name x) = lower block) patched
                       (space_blocks target_space)\<rparr>,
                   patched update_block)))))"

definition update_block ::
  "network list \<Rightarrow> bool \<Rightarrow> patch_op list \<Rightarrow> string \<Rightarrow> string \<Rightarrow> space list
   \<Rightarrow> (error + block) \<times> space list" where
  "update_block net_list is_admin updates space block store =
     commit store (update_block_body net_list is_admin updates space block store)"

section \<open>Attaching a network to a block\<close>

definition create_block_net_body ::
  "network list \<Rightarrow> bool \<Rightarrow> string \<Rightarrow> string \<Rightarrow> string \<Rightarrow> space list
   \<Rightarrow> error + (space \<times> space \<times> block)" where
  "create_block_net_body net_list is_admin vnet space block store =
     (if \<not> is_admin then Inl (HTTPException 403 ''API restricted to admins.'')
      else case query_space store space of
        [] \<Rightarrow> Inl (HTTPException 400 ''Invalid space name.'')
      | target_space # _ \<Rightarrow>
     (case find_block target_space block of
        None \<Rightarrow> Inl (HTTPException 400 ''Invalid block name.'')
      | Some target_block \<Rightarrow>
     (if vnet \<in> set (map vnet_id (block_vnets target_block))
      then Inl (HTTPException 400 ''Network already exists in block.'')
      else case find (\<lambda>x. lower (network_id x) = lower vnet) net_list of
        None \<Rightarrow> Inl (HTTPException 400 ''Invalid network ID.'')
      | Some target_net \<Rightarrow>
     (case find (net_contains (block_cidr target_block)) (network_prefixes target_net) of
        None \<Rightarrow> Inl (HTTPException 400 ''Network CIDR not within block CIDR.'')
      | Some target_cidr \<Rightarrow>
     (let block_net_cidrs =
            map resv_cidr (filter unsettled (block_resv target_block))
            @ map ext_cidr (block_externals target_block)
            @ concat (map (vnet_prefixes net_list target_block) (block_vnets target_block));
          cidr_overlap = t_inter (IPSet block_net_cidrs) (IPSet [target_cidr]);
          attach = (\<lambda>b. b\<lparr>block_vnets := block_vnets b @ [\<lparr>vnet_id = vnet, vnet_active = True\<rparr>]\<rparr>)
      in if cidr_overlap \<noteq> NoAddr
         then Inl (HTTPException 400 ''Block already contains network(s) and/or reservation(s) within the CIDR range of target network.'')
         else Inr (target_space,
                   target_space\<lparr>space_blocks :=
                     update_first (\<lambda>x. lower (block_name x) = lower block) attach
                       (space_blocks target_space)\<rparr>,
                   attach target_block))))))"

definition create_block_net ::
  "network list \<Rightarrow> bool \<Rightarrow> string \<Rightarrow> string \<Rightarrow> string \<Rightarrow> space list
   \<Rightarrow> (error + block) \<times> space list" where
  "create_block_net net_list is_admin vnet space block store =
     commit store (create_block_net_body net_list is_admin vnet space block store)"

section \<open>Reservation from a list of blocks\<close>





section \<open>Deleting reservations\<close>

text \<open>The answer 204 without content.\<close>

datatype no_content = NoContent

text \<open>
  The three assignments that settle a reservation; \<open>t\<close> is what \<^verbatim>\<open>time.time()\<close> returns.
\<close>

definition settle :: "real \<Rightarrow> string \<Rightarrow> reservation \<Rightarrow> reservation" where
  "settle t user_name r =
     r\<lparr>settledOn := Some t, settledBy := Some user_name, resv_status := ''cancelledByUser''\<rparr>"

text \<open>
  The loop of the bulk delete over \<^verbatim>\<open>filtered_req\<close>. \<open>clock k\<close> is the value of the \<open>k\<close>-th
  call of \<^verbatim>\<open>time.time()\<close> in the request; an id that is found at no index makes the list
  subscript raise TypeError.
\<close>

fun settle_loop ::
  "(nat \<Rightarrow> real) \<Rightarrow> string \<Rightarrow> nat \<Rightarrow> string list \<Rightarrow> reservation list \<Rightarrow> error + reservation list" where
  "settle_loop clock user_name k [] resv = Inr resv"
| "settle_loop clock user_name k (rid # ids) resv =
     (case index_of (\<lambda>item. resv_id item = rid) resv of
        None \<Rightarrow> Inl TypeError
      | Some index \<Rightarrow>
          settle_loop clock user_name (Suc k) ids
            (resv[index := settle (clock k) user_name (resv ! index)]))"

definition delete_block_reservations_body ::
  "(nat \<Rightarrow> real) \<Rightarrow> string \<Rightarrow> bool \<Rightarrow> string list \<Rightarrow> string \<Rightarrow> string \<Rightarrow> space list
   \<Rightarrow> error + (space \<times> space \<times> no_content)" where
  "delete_block_reservations_body clock user_name is_admin req space block store =
     (case query_space store space of
        [] \<Rightarrow> Inl (HTTPException 400 ''Invalid space name.'')
      | target_space # _ \<Rightarrow>
     (case find_block target_space block of
        None \<Rightarrow> Inl (HTTPException 400 ''Invalid block name.'')
      | Some target_block \<Rightarrow>
     (if \<not> distinct req
      then Inl (HTTPException 400 ''List contains one or more duplicate id's.'')
      else if \<not> (\<forall>elem\<in>set req. elem \<in> set (map resv_id (block_resv target_block)))
      then Inl (HTTPException 400 ''List contains one or more invalid id's.'')
      else if \<not> is_admin
              \<and> filter (\<lambda>x. resv_id x \<in> set req \<and> createdBy x \<noteq> user_name)
                   (block_resv target_block) \<noteq> []
      then Inl (HTTPException 403 ''Users can only delete their own reservations.'')
      else
        (let filtered_req = map resv_id (filter (\<lambda>r. unsettled r \<and> resv_id r \<in> set req)
                                           (block_resv target_block))
         in case settle_loop clock user_name 0 filtered_req (block_resv target_block) of
              Inl e \<Rightarrow> Inl e
            | Inr settled \<Rightarrow>
                Inr (target_space,
                     target_space\<lparr>space_blocks :=
                       update_first (\<lambda>x. lower (block_name x) = lower block)
                         (\<lambda>b. b\<lparr>block_resv := settled\<rparr>) (space_blocks target_space)\<rparr>,
                     NoContent)))))"

definition delete_block_reservations ::
  "(nat \<Rightarrow> real) \<Rightarrow> string \<Rightarrow> bool \<Rightarrow> string list \<Rightarrow> string \<Rightarrow> string \<Rightarrow> space list
   \<Rightarrow> (error + no_content) \<times> space list" where
  "delete_block_reservations clock user_name is_admin req space block store =
     commit store (delete_block_reservations_body clock user_name is_admin req space block store)"

text \<open>
  The delete of one reservation writes only when the reservation is unsettled; the result
  of the body is the document read and the document to write, if any.
\<close>

definition delete_block_reservation_body ::
  "(nat \<Rightarrow> real) \<Rightarrow> string \<Rightarrow> bool \<Rightarrow> string \<Rightarrow> string \<Rightarrow> string \<Rightarrow> space list
   \<Rightarrow> error + (space \<times> space) option" where
  "delete_block_reservation_body clock user_name is_admin space block reservation store =
     (case query_space store space of
        [] \<Rightarrow> Inl (HTTPException 400 ''Invalid space name.'')
      | target_space # _ \<Rightarrow>
     (case find_block target_space block of
        None \<Rightarrow> Inl (HTTPException 400 ''Invalid block name.'')
      | Some target_block \<Rightarrow>
     (case find (\<lambda>x. resv_id x = reservation) (block_resv target_block) of
        None \<Rightarrow> Inl (HTTPException 400 ''Invalid reservation ID.'')
      | Some target_reservation \<Rightarrow>
     (if \<not> is_admin \<and> createdBy target_reservation \<noteq> user_name
      then Inl (HTTPException 403 ''Users can only delete their own reservations.'')
      else if unsettled target_reservation
      then Inr (Some (target_space,
                  target_space\<lparr>space_blocks :=
                    update_first (\<lambda>x. lower (block_name x) = lower block)
                      (\<lambda>b. b\<lparr>block_resv :=
                              update_first (\<lambda>x. resv_id x = reservation)
                                (settle (clock 0) user_name) (block_resv b)\<rparr>)
                      (space_blocks target_space)\<rparr>))
      else Inr None))))"

definition delete_block_reservation ::
  "(nat \<Rightarrow> real) \<Rightarrow> string \<Rightarrow> bool \<Rightarrow> string \<Rightarrow> string \<Rightarrow> string \<Rightarrow> space list
   \<Rightarrow> (error + no_content) \<times> space list" where
  "delete_block_reservation clock user_name is_admin space block reservation store =
     (case delete_block_reservation_body clock user_name is_admin space block reservation store of
        Inl e \<Rightarrow> (Inl e, store)
      | Inr None \<Rightarrow> (Inr NoContent, store)
      | Inr (Some (old, new)) \<Rightarrow> (Inr NoContent, cosmos_replace store old new))"

section \<open>Creating an external network\<close>

record ext_net_req =
  ereq_name :: string
  ereq_desc :: string
  ereq_cidr :: "cidr_text option"
  ereq_size :: nat

record ext_net_expand =
  resp_ext :: external
  resp_ext_space :: string
  resp_ext_block :: string

definition create_external_network_body ::
  "network list \<Rightarrow> bool \<Rightarrow> ext_net_req \<Rightarrow> string \<Rightarrow> string \<Rightarrow> space list
   \<Rightarrow> error + (space \<times> space \<times> ext_net_expand)" where
  "create_external_network_body net_list is_admin req space block store =
     (if \<not> is_admin then Inl (HTTPException 403 ''API restricted to admins.'')
      else if \<not> name_regex_match (ereq_name req)
      then Inl (HTTPException 400 ''External network name can be a maximum of 64 characters and may contain alphanumerics, underscores, hypens, and periods.'')
      else if \<not> desc_regex_match (ereq_desc req)
      then Inl (HTTPException 400 ''External network description can be a maximum of 128 characters and may contain alphanumerics, spaces, underscores, hypens, slashes, and periods.'')
      else case query_space store space of
        [] \<Rightarrow> Inl (HTTPException 400 ''Invalid space name.'')
      | target_space # _ \<Rightarrow>
     (case find_block target_space block of
        None \<Rightarrow> Inl (HTTPException 400 ''Invalid block name.'')
      | Some target_block \<Rightarrow>
     (if ereq_name req \<in> set (map ext_name (block_externals target_block))
      then Inl (HTTPException 400 ''External network name already exists in block.'')
      else
     (let block_set = IPSet (concat (map (vnet_prefixes net_list target_block)
                                       (block_vnets target_block)));
          resv_set = IPSet (map resv_cidr (filter unsettled (block_resv target_block)));
          external_set = IPSet (map ext_cidr (block_externals target_block));
          avail = t_xor (IPSet [block_cidr target_block])
                    (t_union (t_union resv_set external_set) block_set);
          next_cidr =
            (case ereq_cidr req of
               Some Unparsable \<Rightarrow>
                 Inl (HTTPException 400 ''Invalid CIDR, please ensure CIDR is in valid IPv4 CIDR notation (x.x.x.x/x).'')
             | Some (Parsed n) \<Rightarrow>
                 (if net_cidr n \<noteq> n
                  then Inl (HTTPException_cidr 400 ''External network cidr invalid, should be {}''
                              (net_cidr n))
                  else if \<not> net_contains (block_cidr target_block) n
                  then Inl (HTTPException 400 ''External network CIDR not within block CIDR.'')
                  else if t_inter (IPSet [n]) external_set \<noteq> NoAddr
                  then Inl (HTTPException 400 ''Block contains external network(s) which overlap the target external network.'')
                  else if t_inter (IPSet [n]) resv_set \<noteq> NoAddr
                  then Inl (HTTPException 400 ''Block contains unfulfilled reservation(s) which overlap the target external network.'')
                  else if t_inter (IPSet [n]) block_set \<noteq> NoAddr
                  then Inl (HTTPException 400 ''Block contains a virtual network(s) or hub(s) which overlap the target external network.'')
                  else Inr n)
             | None \<Rightarrow>
                 (case find (\<lambda>net. prefixlen net \<le> ereq_size req) (iter_cidrs avail) of
                    None \<Rightarrow>
                      Inl (HTTPException 500 ''Network of requested size unavailable in target block.'')
                  | Some available_network \<Rightarrow>
                      (case subnet_list available_network (ereq_size req) of
                         Inl e \<Rightarrow> Inl e
                       | Inr subnets \<Rightarrow> next_selector False subnets)))
      in case next_cidr of
           Inl e \<Rightarrow> Inl e
         | Inr cidr \<Rightarrow>
             (let new_external = \<lparr>ext_name = ereq_name req, ext_desc = ereq_desc req,
                                   ext_cidr = cidr, ext_subnets = []\<rparr>
              in Inr (target_space,
                      target_space\<lparr>space_blocks :=
                        update_first (\<lambda>x. lower (block_name x) = lower block)
                          (\<lambda>b. b\<lparr>block_externals := block_externals b @ [new_external]\<rparr>)
                          (space_blocks target_space)\<rparr>,
                      \<lparr>resp_ext = new_external, resp_ext_space = space_name target_space,
                       resp_ext_block = block_name target_block\<rparr>))))))"

definition create_external_network ::
  "network list \<Rightarrow> bool \<Rightarrow> ext_net_req \<Rightarrow> string \<Rightarrow> string \<Rightarrow> space list
   \<Rightarrow> (error + ext_net_expand) \<times> space list" where
  "create_external_network net_list is_admin req space block store =
     commit store (create_external_network_body net_list is_admin req space block store)"

section \<open>Notions of the specification\<close>

text \<open>
  The addresses claimed in a block, as I3 counts them: those of the prefixes of its attached
  vnets that lie inside the block, of its unsettled reservations and of its externals. A
  reservation is unsettled when \<^verbatim>\<open>settledOn\<close> is null (or the time 0, which Python takes for
  false as well).
\<close>

definition claimed_addrs :: "network list \<Rightarrow> block \<Rightarrow> nat set" where
  "claimed_addrs net_list b =
     {a. \<exists>v\<in>set (block_vnets b). \<exists>t. \<exists>c\<in>set (network_prefixes t).
           find (\<lambda>x. lower (network_id x) = lower (vnet_id v)) net_list = Some t
           \<and> net_contains (block_cidr b) c \<and> a \<in> net_addrs c}
     \<union> {a. \<exists>r\<in>set (block_resv b).
           (settledOn r = None \<or> settledOn r = Some 0) \<and> a \<in> net_addrs (resv_cidr r)}
     \<union> {a. \<exists>e\<in>set (block_externals b). a \<in> net_addrs (ext_cidr e)}"

definition free_addrs :: "network list \<Rightarrow> block \<Rightarrow> nat set" where
  "free_addrs net_list b = net_addrs (block_cidr b) - claimed_addrs net_list b"

text \<open>
  The maximal prefixes of a set of addresses in ascending order: each is a canonical prefix
  inside the set whose supernet is not inside it, together they cover the set, and each
  ends before the next begins.
\<close>

definition maximal_prefix :: "nat set \<Rightarrow> ipnetwork \<Rightarrow> bool" where
  "maximal_prefix F p =
     (valid_net p \<and> net_cidr p = p \<and> net_addrs p \<subseteq> F
      \<and> (0 < prefixlen p \<longrightarrow> \<not> net_addrs (supernet p) \<subseteq> F))"

definition ascending_maximal_prefixes :: "nat set \<Rightarrow> ipnetwork list \<Rightarrow> bool" where
  "ascending_maximal_prefixes F ps =
     ((\<forall>p\<in>set ps. maximal_prefix F p)
      \<and> (\<Union>p\<in>set ps. net_addrs p) = F
      \<and> sorted_wrt (\<lambda>a b. net_first a + net_size a \<le> net_first b) ps)"

section \<open>Scenario documents\<close>

text \<open>\<open>10.0.0.0\<close> is \<open>167772160\<close>; the caller's token carries a user name.\<close>

definition token_alice :: jwt_claims where
  "token_alice = \<lparr>preferred_username = Some ''alice'', oid = None\<rparr>"

definition by_size :: "nat \<Rightarrow> bool \<Rightarrow> bool \<Rightarrow> block_cidr_req" where
  "by_size sz rev_search smallest =
     \<lparr>req_size = sz, req_cidr = None, req_desc = Some ''bu1'',
      req_reverse_search = rev_search, req_smallest_cidr = smallest\<rparr>"

text \<open>Space \<open>corp\<close> with the empty block \<open>10.0.0.0/24\<close>.\<close>

definition small_block :: block where
  "small_block =
     \<lparr>block_name = ''blk1'', block_cidr = \<lparr>net_value = 167772160, prefixlen = 24\<rparr>,
      block_vnets = [], block_externals = [], block_resv = []\<rparr>"

definition small_corp :: space where
  "small_corp =
     \<lparr>space_id = ''s1'', space_name = ''corp'', space_desc = ''main'', space_blocks = [small_block]\<rparr>"

text \<open>
  Space \<open>corp\<close> with the block \<open>10.0.0.0/16\<close>, which holds the external \<open>10.0.1.0/24\<close>.
\<close>

definition ext_block :: block where
  "ext_block =
     \<lparr>block_name = ''blk1'', block_cidr = \<lparr>net_value = 167772160, prefixlen = 16\<rparr>,
      block_vnets = [],
      block_externals = [\<lparr>ext_name = ''dc1'', ext_desc = ''datacenter'',
                          ext_cidr = \<lparr>net_value = 167772416, prefixlen = 24\<rparr>, ext_subnets = []\<rparr>],
      block_resv = []\<rparr>"

definition ext_corp :: space where
  "ext_corp =
     \<lparr>space_id = ''s1'', space_name = ''corp'', space_desc = ''main'', space_blocks = [ext_block]\<rparr>"

text \<open>
  Two spaces: \<open>spaceA\<close> has the block \<open>block1\<close> with the vnet \<open>V\<close> attached, \<open>spaceB\<close> has the
  block \<open>block2\<close>; both blocks are \<open>10.0.0.0/16\<close>. The inventory knows \<open>V\<close> with the prefix
  \<open>10.0.0.0/24\<close> and \<open>W\<close> with the prefix \<open>10.0.5.0/24\<close>.
\<close>

definition vnet_V :: network where
  "vnet_V = \<lparr>network_id = ''V'', network_prefixes = [\<lparr>net_value = 167772160, prefixlen = 24\<rparr>]\<rparr>"

definition vnet_W :: network where
  "vnet_W = \<lparr>network_id = ''W'', network_prefixes = [\<lparr>net_value = 167773440, prefixlen = 24\<rparr>]\<rparr>"

definition spaceA :: space where
  "spaceA =
     \<lparr>space_id = ''sA'', space_name = ''spaceA'', space_desc = ''first'',
      space_blocks =
        [\<lparr>block_name = ''block1'', block_cidr = \<lparr>net_value = 167772160, prefixlen = 16\<rparr>,
          block_vnets = [\<lparr>vnet_id = ''V'', vnet_active = True\<rparr>],
          block_externals = [], block_resv = []\<rparr>]\<rparr>"

definition spaceB :: space where
  "spaceB =
     \<lparr>space_id = ''sB'', space_name = ''spaceB'', space_desc = ''second'',
      space_blocks =
        [\<lparr>block_name = ''block2'', block_cidr = \<lparr>net_value = 167772160, prefixlen = 16\<rparr>,
          block_vnets = [], block_externals = [], block_resv = []\<rparr>]\<rparr>"

text \<open>
  Space \<open>corp\<close> with the block \<open>10.0.0.0/16\<close> holding alice's unsettled reservation
  \<open>10.0.200.0/24\<close>; \<open>10.1.0.0/16\<close> and \<open>10.0.0.0/17\<close> are the CIDRs a patch asks for.
\<close>

definition resv_200 :: reservation where
  "resv_200 =
     \<lparr>resv_id = ''r200'', resv_cidr = \<lparr>net_value = 167823360, prefixlen = 24\<rparr>,
      resv_desc = Some ''bu1'', createdOn = 1700000000, createdBy = ''alice'',
      settledOn = None, settledBy = None, resv_status = ''wait''\<rparr>"

definition resv_block :: block where
  "resv_block =
     \<lparr>block_name = ''blk1'', block_cidr = \<lparr>net_value = 167772160, prefixlen = 16\<rparr>,
      block_vnets = [], block_externals = [], block_resv = [resv_200]\<rparr>"

definition resv_corp :: space where
  "resv_corp =
     \<lparr>space_id = ''s1'', space_name = ''corp'', space_desc = ''main'', space_blocks = [resv_block]\<rparr>"

text \<open>
  Space \<open>corp\<close> with the block \<open>10.0.0.0/16\<close> holding alice's unsettled reservation
  \<open>10.0.1.0/24\<close>, and a vnet \<open>V2\<close> of the inventory with the two prefixes \<open>10.0.0.0/24\<close> and
  \<open>10.0.1.0/24\<close>.
\<close>

definition resv_1 :: reservation where
  "resv_1 =
     \<lparr>resv_id = ''r1'', resv_cidr = \<lparr>net_value = 167772416, prefixlen = 24\<rparr>,
      resv_desc = Some ''bu1'', createdOn = 1700000000, createdBy = ''alice'',
      settledOn = None, settledBy = None, resv_status = ''wait''\<rparr>"

definition net_block :: block where
  "net_block =
     \<lparr>block_name = ''blk1'', block_cidr = \<lparr>net_value = 167772160, prefixlen = 16\<rparr>,
      block_vnets = [], block_externals = [], block_resv = [resv_1]\<rparr>"

definition net_corp :: space where
  "net_corp =
     \<lparr>space_id = ''s1'', space_name = ''corp'', space_desc = ''main'', space_blocks = [net_block]\<rparr>"

definition vnet_V2 :: network where
  "vnet_V2 =
     \<lparr>network_id = ''V2'',
      network_prefixes = [\<lparr>net_value = 167772160, prefixlen = 24\<rparr>,
                          \<lparr>net_value = 167772416, prefixlen = 24\<rparr>]\<rparr>"

text \<open>The block of \<open>net_corp\<close> once \<open>V2\<close> is attached to it.\<close>

definition attached_block :: block where
  "attached_block = net_block\<lparr>block_vnets := [\<lparr>vnet_id = ''V2'', vnet_active = True\<rparr>]\<rparr>"

text \<open>
  Space \<open>corp\<close> with the empty block \<open>10.0.0.0/16\<close>, and the same block once \<open>10.0.0.0/17\<close> is
  reserved in it.
\<close>

definition wide_block :: block where
  "wide_block =
     \<lparr>block_name = ''blk1'', block_cidr = \<lparr>net_value = 167772160, prefixlen = 16\<rparr>,
      block_vnets = [], block_externals = [], block_resv = []\<rparr>"

definition wide_corp :: space where
  "wide_corp =
     \<lparr>space_id = ''s1'', space_name = ''corp'', space_desc = ''main'', space_blocks = [wide_block]\<rparr>"

definition resv_half :: reservation where
  "resv_half =
     \<lparr>resv_id = ''r17'', resv_cidr = \<lparr>net_value = 167772160, prefixlen = 17\<rparr>,
      resv_desc = Some ''bu0'', createdOn = 1700000000, createdBy = ''alice'',
      settledOn = None, settledBy = None, resv_status = ''wait''\<rparr>"

definition half_block :: block where
  "half_block = wide_block\<lparr>block_resv := [resv_half]\<rparr>"

definition half_corp :: space where
  "half_corp =
     \<lparr>space_id = ''s1'', space_name = ''corp'', space_desc = ''main'', space_blocks = [half_block]\<rparr>"

text \<open>
  Space \<open>corp\<close> with the block \<open>10.0.0.0/16\<close> in which bob holds the unsettled reservation
  \<open>10.0.64.0/18\<close> and a settled one on \<open>10.0.128.0/17\<close>: the free prefixes of the block are
  \<open>10.0.0.0/18\<close> and \<open>10.0.128.0/17\<close>.
\<close>

definition resv_64 :: reservation where
  "resv_64 =
     \<lparr>resv_id = ''r64'', resv_cidr = \<lparr>net_value = 167788544, prefixlen = 18\<rparr>,
      resv_desc = Some ''bu2'', createdOn = 1690000000, createdBy = ''bob'',
      settledOn = None, settledBy = None, resv_status = ''wait''\<rparr>"

definition resv_old :: reservation where
  "resv_old =
     \<lparr>resv_id = ''r0'', resv_cidr = \<lparr>net_value = 167804928, prefixlen = 17\<rparr>,
      resv_desc = Some ''bu3'', createdOn = 1680000000, createdBy = ''bob'',
      settledOn = Some 1690000000, settledBy = Some ''bob'', resv_status = ''cancelledByUser''\<rparr>"

definition split_block :: block where
  "split_block =
     \<lparr>block_name = ''blk1'', block_cidr = \<lparr>net_value = 167772160, prefixlen = 16\<rparr>,
      block_vnets = [], block_externals = [], block_resv = [resv_old, resv_64]\<rparr>"

definition split_corp :: space where
  "split_corp =
     \<lparr>space_id = ''s1'', space_name = ''corp'', space_desc = ''main'', space_blocks = [split_block]\<rparr>"

text \<open>
  Space \<open>corp\<close> with the block \<open>10.0.0.0/16\<close> in which \<open>10.0.32.0/19\<close> and \<open>10.0.96.0/19\<close> are
  reserved: the free prefixes of the block are \<open>10.0.0.0/19\<close>, \<open>10.0.64.0/19\<close> and
  \<open>10.0.128.0/17\<close>.
\<close>

definition resv_32 :: reservation where
  "resv_32 =
     \<lparr>resv_id = ''r32'', resv_cidr = \<lparr>net_value = 167780352, prefixlen = 19\<rparr>,
      resv_desc = Some ''bu4'', createdOn = 1690000000, createdBy = ''bob'',
      settledOn = None, settledBy = None, resv_status = ''wait''\<rparr>"

definition resv_96 :: reservation where
  "resv_96 =
     \<lparr>resv_id = ''r96'', resv_cidr = \<lparr>net_value = 167796736, prefixlen = 19\<rparr>,
      resv_desc = Some ''bu5'', createdOn = 1690000000, createdBy = ''bob'',
      settledOn = None, settledBy = None, resv_status = ''wait''\<rparr>"

definition holes_block :: block where
  "holes_block =
     \<lparr>block_name = ''blk1'', block_cidr = \<lparr>net_value = 167772160, prefixlen = 16\<rparr>,
      block_vnets = [], block_externals = [], block_resv = [resv_32, resv_96]\<rparr>"

definition holes_corp :: space where
  "holes_corp =
     \<lparr>space_id = ''s1'', space_name = ''corp'', space_desc = ''main'', space_blocks = [holes_block]\<rparr>"








text \<open>
  Space \<open>corp\<close> with the block \<open>10.0.0.0/16\<close> holding four reservations: \<open>ra\<close> and \<open>rc\<close> of alice,
  unsettled; \<open>rs\<close> of alice, settled; \<open>rb\<close> of bob, unsettled. The clock \<open>tick\<close> advances by one
  second at each reading.
\<close>

definition tick :: "nat \<Rightarrow> real" where
  "tick k = 1700000000 + real k"

definition dr_a :: reservation where
  "dr_a =
     \<lparr>resv_id = ''ra'', resv_cidr = \<lparr>net_value = 167772160, prefixlen = 24\<rparr>,
      resv_desc = Some ''bu1'', createdOn = 1690000000, createdBy = ''alice'',
      settledOn = None, settledBy = None, resv_status = ''wait''\<rparr>"

definition dr_s :: reservation where
  "dr_s =
     \<lparr>resv_id = ''rs'', resv_cidr = \<lparr>net_value = 167772416, prefixlen = 24\<rparr>,
      resv_desc = Some ''bu2'', createdOn = 1690000000, createdBy = ''alice'',
      settledOn = Some 1695000000, settledBy = Some ''alice'', resv_status = ''fulfilled''\<rparr>"

definition dr_b :: reservation where
  "dr_b =
     \<lparr>resv_id = ''rb'', resv_cidr = \<lparr>net_value = 167772672, prefixlen = 24\<rparr>,
      resv_desc = Some ''bu3'', createdOn = 1690000000, createdBy = ''bob'',
      settledOn = None, settledBy = None, resv_status = ''wait''\<rparr>"

definition dr_c :: reservation where
  "dr_c =
     \<lparr>resv_id = ''rc'', resv_cidr = \<lparr>net_value = 167772928, prefixlen = 24\<rparr>,
      resv_desc = Some ''bu4'', createdOn = 1690000000, createdBy = ''alice'',
      settledOn = None, settledBy = None, resv_status = ''wait''\<rparr>"

definition del_block :: block where
  "del_block =
     \<lparr>block_name = ''blk1'', block_cidr = \<lparr>net_value = 167772160, prefixlen = 16\<rparr>,
      block_vnets = [], block_externals = [], block_resv = [dr_a, dr_s, dr_b, dr_c]\<rparr>"

definition del_corp :: space where
  "del_corp =
     \<lparr>space_id = ''s1'', space_name = ''corp'', space_desc = ''main'', space_blocks = [del_block]\<rparr>"

(*PROPERTIES*)
section \<open>Properties of the address sets\<close>

subsection \<open>Unfolding on numerals\<close>

lemma net_trie_0: "net_trie 0 k v = AllAddr"
  by (cases k) auto

lemma net_trie_unfold:
  "0 < h \<Longrightarrow> 0 < k \<Longrightarrow>
   net_trie h k v =
     (if v < 2 ^ (h - 1) then Split (net_trie (h - 1) (k - 1) v) NoAddr
      else Split NoAddr (net_trie (h - 1) (k - 1) (v - 2 ^ (h - 1))))"
  by (cases "(h, k, v)" rule: net_trie.cases) auto

lemma cidrs_unfold:
  "0 < h \<Longrightarrow> cidrs (Split l r) base h = cidrs l base (h - 1) @ cidrs r (base + 2 ^ (h - 1)) (h - 1)"
  by (cases h) auto

lemma t_contains_unfold:
  "0 < h \<Longrightarrow> 0 < k \<Longrightarrow>
   t_contains (Split l r) h k v =
     (if v < 2 ^ (h - 1) then t_contains l (h - 1) (k - 1) v
      else t_contains r (h - 1) (k - 1) (v - 2 ^ (h - 1)))"
  by (cases "(Split l r, h, k, v)" rule: t_contains.cases) auto

subsection \<open>Meaning of the set operations\<close>

lemma addrs_range: "addrs t base h \<subseteq> {base ..< base + 2 ^ h}"
  by (induction t base h rule: addrs.induct) auto

lemma compacted_empty_iff: "compacted t h \<Longrightarrow> addrs t base h = {} \<longleftrightarrow> t = NoAddr"
  by (induction t base h rule: addrs.induct) auto

lemma addrs_left_right_disj: "addrs l base h \<inter> addrs r (base + 2 ^ h) h = {}"
  using addrs_range[of l base h] addrs_range[of r "base + 2 ^ h" h] by (fastforce simp: subset_iff)

lemma addrs_bounds: "x \<in> addrs t base h \<Longrightarrow> base \<le> x \<and> x < base + 2 ^ h"
  using addrs_range[of t base h] by auto

lemma addrs_full_absorb:
  "{base ..< base + 2 ^ h} \<union> addrs t base h = {base ..< base + 2 ^ h}"
  "addrs t base h \<union> {base ..< base + 2 ^ h} = {base ..< base + 2 ^ h}"
  "{base ..< base + 2 ^ h} \<inter> addrs t base h = addrs t base h"
  "addrs t base h \<inter> {base ..< base + 2 ^ h} = addrs t base h"
  using addrs_range[of t base h] by blast+

lemma compacted_full_iff: "compacted t h \<Longrightarrow> addrs t base h = {base ..< base + 2 ^ h} \<longleftrightarrow> t = AllAddr"
proof (induction t base h rule: addrs.induct)
  case (4 l r base h)
  have L: "addrs l base h \<subseteq> {base ..< base + 2 ^ h}" by (rule addrs_range)
  have R: "addrs r (base + 2 ^ h) h \<subseteq> {base + 2 ^ h ..< base + 2 ^ h + 2 ^ h}" by (rule addrs_range)
  show ?case
  proof
    assume full: "addrs (Split l r) base (Suc h) = {base..<base + 2 ^ Suc h}"
    have "addrs l base h = {base ..< base + 2 ^ h}"
    proof (rule equalityI[OF L], rule subsetI)
      fix x assume "x \<in> {base ..< base + 2 ^ h}"
      then have "x \<in> addrs (Split l r) base (Suc h)" using full by auto
      then show "x \<in> addrs l base h" using R \<open>x \<in> {base ..< base + 2 ^ h}\<close> by auto
    qed
    moreover have "addrs r (base + 2 ^ h) h = {base + 2 ^ h ..< base + 2 ^ h + 2 ^ h}"
    proof (rule equalityI[OF R], rule subsetI)
      fix x assume x: "x \<in> {base + 2 ^ h ..< base + 2 ^ h + 2 ^ h}"
      then have "x \<in> addrs (Split l r) base (Suc h)" using full by auto
      then show "x \<in> addrs r (base + 2 ^ h) h" using L x by auto
    qed
    ultimately have "l = AllAddr" "r = AllAddr" using 4 by auto
    then show "Split l r = AllAddr" using 4(3) by simp
  qed simp
qed auto

lemma tnode_compacted: "compacted l h \<Longrightarrow> compacted r h \<Longrightarrow> compacted (tnode l r) (Suc h)"
  by (cases "(l, r)" rule: tnode.cases) auto

lemma tnode_addrs: "addrs (tnode l r) base (Suc h) = addrs l base h \<union> addrs r (base + 2 ^ h) h"
  by (cases "(l, r)" rule: tnode.cases) auto

lemma compacted_mono: "compacted t h \<Longrightarrow> compacted t (Suc h)"
  by (induction t h rule: compacted.induct) auto

lemma t_union_compacted: "compacted a h \<Longrightarrow> compacted b h \<Longrightarrow> compacted (t_union a b) h"
proof (induction a b arbitrary: h rule: t_union.induct)
  case (5 a b c d)
  then show ?case by (cases h) (auto intro!: tnode_compacted simp del: tnode.simps)
qed auto

lemma t_union_addrs: "compacted a h \<Longrightarrow> compacted b h \<Longrightarrow> addrs (t_union a b) base h = addrs a base h \<union> addrs b base h"
proof (induction a b arbitrary: h base rule: t_union.induct)
  case (5 a b c d)
  then show ?case by (cases h) (auto simp: tnode_addrs simp del: tnode.simps)
qed (use addrs_full_absorb in \<open>auto simp del: addrs.simps(4)\<close>)

lemma t_inter_compacted: "compacted a h \<Longrightarrow> compacted b h \<Longrightarrow> compacted (t_inter a b) h"
proof (induction a b arbitrary: h rule: t_inter.induct)
  case (5 a b c d)
  then show ?case by (cases h) (auto intro!: tnode_compacted simp del: tnode.simps)
qed auto

lemma t_inter_addrs: "compacted a h \<Longrightarrow> compacted b h \<Longrightarrow> addrs (t_inter a b) base h = addrs a base h \<inter> addrs b base h"
proof (induction a b arbitrary: h base rule: t_inter.induct)
  case (5 a b c d)
  obtain h' where h: "h = Suc h'" using 5 by (cases h) auto
  have "addrs a base h' \<inter> addrs d (base + 2 ^ h') h' = {}" by (rule addrs_left_right_disj)
  moreover have "addrs c base h' \<inter> addrs b (base + 2 ^ h') h' = {}" by (rule addrs_left_right_disj)
  ultimately show ?case using 5 h by (auto simp: tnode_addrs simp del: tnode.simps)
qed (use addrs_full_absorb in \<open>auto simp del: addrs.simps(4)\<close>)

lemma t_compl_compacted: "compacted a h \<Longrightarrow> compacted (t_compl a) h"
  by (induction a h rule: compacted.induct) (auto elim: t_compl.elims)

lemma t_compl_addrs: "compacted a h \<Longrightarrow> addrs (t_compl a) base h = {base ..< base + 2 ^ h} - addrs a base h"
proof (induction a base h rule: addrs.induct)
  case (4 l r base h)
  have L: "addrs l base h \<subseteq> {base ..< base + 2 ^ h}" by (rule addrs_range)
  have R: "addrs r (base + 2 ^ h) h \<subseteq> {base + 2 ^ h ..< base + 2 ^ h + 2 ^ h}" by (rule addrs_range)
  show ?case using 4 L R by auto
qed auto

lemma t_xor_compacted: "compacted a h \<Longrightarrow> compacted b h \<Longrightarrow> compacted (t_xor a b) h"
proof (induction a b arbitrary: h rule: t_xor.induct)
  case (5 a b c d)
  then show ?case by (cases h) (auto intro!: tnode_compacted simp del: tnode.simps)
qed (auto simp: t_compl_compacted simp del: t_compl.simps)

lemma t_xor_addrs: "compacted a h \<Longrightarrow> compacted b h \<Longrightarrow> addrs (t_xor a b) base h = (addrs a base h - addrs b base h) \<union> (addrs b base h - addrs a base h)"
proof (induction a b arbitrary: h base rule: t_xor.induct)
  case (5 a b c d)
  obtain h' where h: "h = Suc h'" using 5 by (cases h) auto
  have "addrs a base h' \<inter> addrs d (base + 2 ^ h') h' = {}" by (rule addrs_left_right_disj)
  moreover have "addrs c base h' \<inter> addrs b (base + 2 ^ h') h' = {}" by (rule addrs_left_right_disj)
  ultimately show ?case using 5 h by (auto simp: tnode_addrs simp del: tnode.simps)
qed (auto simp: t_compl_addrs dest: addrs_bounds simp del: t_compl.simps addrs.simps(4))

subsection \<open>Networks as sets\<close>

lemma block_offset_top: "k \<le> h \<Longrightarrow> v < 2 ^ h \<Longrightarrow> block_offset h k v + 2 ^ (h - k) \<le> 2 ^ h"
proof -
  assume kh: "k \<le> h" and v: "v < 2 ^ h"
  have e: "(2::nat) ^ h = 2 ^ k * 2 ^ (h - k)" using kh by (simp flip: power_add)
  have "v div 2 ^ (h - k) < 2 ^ k" using v e by (simp add: less_mult_imp_div_less)
  then have "v div 2 ^ (h - k) + 1 \<le> 2 ^ k" by simp
  then have "(v div 2 ^ (h - k) + 1) * 2 ^ (h - k) \<le> 2 ^ k * 2 ^ (h - k)" by (rule mult_le_mono1)
  then show ?thesis using e by (simp add: block_offset_def algebra_simps)
qed

lemma block_offset_zero: "v < 2 ^ h \<Longrightarrow> block_offset h 0 v = 0"
  by (simp add: block_offset_def)

lemma block_offset_left: "block_offset (Suc h) (Suc k) v = block_offset h k v"
  by (simp add: block_offset_def)

lemma block_offset_right: "k \<le> h \<Longrightarrow> 2 ^ h \<le> v \<Longrightarrow> block_offset (Suc h) (Suc k) v = 2 ^ h + block_offset h k (v - 2 ^ h)"
proof -
  assume kh: "k \<le> h" and v: "2 ^ h \<le> v"
  have e: "(2::nat) ^ h = 2 ^ k * 2 ^ (h - k)" using kh by (simp flip: power_add)
  obtain w where w: "v = w + 2 ^ k * 2 ^ (h - k)" using v e by (metis le_add_diff_inverse2)
  have "v div 2 ^ (h - k) = w div 2 ^ (h - k) + 2 ^ k" unfolding w by simp
  moreover have "v - 2 ^ h = w" using w e by simp
  ultimately show ?thesis using e by (simp add: block_offset_def algebra_simps)
qed

lemma net_trie_not_empty: "net_trie h k v \<noteq> NoAddr"
  by (induction h k v rule: net_trie.induct) auto

lemma net_trie_compacted: "k \<le> h \<Longrightarrow> compacted (net_trie h k v) h"
  by (induction h k v rule: net_trie.induct) (auto simp: net_trie_not_empty)

lemma net_trie_addrs:
  "k \<le> h \<Longrightarrow> v < 2 ^ h \<Longrightarrow>
   addrs (net_trie h k v) base h = {base + block_offset h k v ..< base + block_offset h k v + 2 ^ (h - k)}"
proof (induction h k v arbitrary: base rule: net_trie.induct)
  case (1 h v)
  then show ?case by (simp add: block_offset_zero)
next
  case (2 k v)
  then show ?case by simp
next
  case (3 h k v)
  show ?case
  proof (cases "v < 2 ^ h")
    case True
    then show ?thesis using 3 by (simp add: block_offset_left)
  next
    case False
    then have "v - 2 ^ h < 2 ^ h" using 3(4) by simp
    then show ?thesis using 3 False by (simp add: block_offset_right add.assoc)
  qed
qed

lemma net_first_offset: "net_first n = block_offset 32 (prefixlen n) (net_value n)"
  by (simp add: net_first_def net_size_def block_offset_def)

lemma ipset_of_net_compacted: "valid_net n \<Longrightarrow> compacted (ipset_of_net n) 32"
  by (simp add: ipset_of_net_def valid_net_def net_trie_compacted)

lemma ipset_of_net_addrs: "valid_net n \<Longrightarrow> ipset_addrs (ipset_of_net n) = net_addrs n"
  unfolding ipset_addrs_def ipset_of_net_def net_addrs_def net_first_offset valid_net_def
  by (subst net_trie_addrs) (auto simp: net_size_def)

lemma foldl_union_compacted:
  "compacted s 32 \<Longrightarrow> \<forall>n\<in>set ns. valid_net n \<Longrightarrow>
   compacted (foldl (\<lambda>s n. t_union s (ipset_of_net n)) s ns) 32"
  by (induction ns arbitrary: s) (auto simp: t_union_compacted ipset_of_net_compacted)

lemma foldl_union_addrs:
  "compacted s 32 \<Longrightarrow> \<forall>n\<in>set ns. valid_net n \<Longrightarrow>
   ipset_addrs (foldl (\<lambda>s n. t_union s (ipset_of_net n)) s ns) = ipset_addrs s \<union> (\<Union>n\<in>set ns. net_addrs n)"
proof (induction ns arbitrary: s)
  case Nil
  then show ?case by simp
next
  case (Cons n ns)
  have c: "compacted (t_union s (ipset_of_net n)) 32"
    using Cons.prems by (simp add: t_union_compacted ipset_of_net_compacted)
  have "ipset_addrs (t_union s (ipset_of_net n)) = ipset_addrs s \<union> net_addrs n"
    using Cons.prems ipset_of_net_addrs[of n]
    by (simp add: ipset_addrs_def t_union_addrs ipset_of_net_compacted)
  then show ?case using Cons.IH[OF c] Cons.prems by auto
qed

lemma IPSet_compacted: "\<forall>n\<in>set ns. valid_net n \<Longrightarrow> compacted (IPSet ns) 32"
  unfolding IPSet_def by (rule foldl_union_compacted) auto

lemma IPSet_addrs: "\<forall>n\<in>set ns. valid_net n \<Longrightarrow> ipset_addrs (IPSet ns) = (\<Union>n\<in>set ns. net_addrs n)"
  unfolding IPSet_def by (subst foldl_union_addrs) (auto simp: ipset_addrs_def)

subsection \<open>The blocks of a set\<close>

lemma dvd_half: "(2::nat) ^ Suc h dvd base \<Longrightarrow> 2 ^ h dvd base \<and> 2 ^ h dvd base + 2 ^ h"
  by (metis dvd_add dvd_refl dvd_power_le le_SucI order_refl dvd_trans power_Suc dvd_triv_right)

lemma aligned_first: "(2::nat) ^ h dvd base \<Longrightarrow> (base div 2 ^ h) * 2 ^ h = base"
  by simp

lemma leaf_addrs: "h \<le> 32 \<Longrightarrow> 2 ^ h dvd base \<Longrightarrow>
    net_addrs \<lparr>net_value = base, prefixlen = 32 - h\<rparr> = {base ..< base + 2 ^ h}"
  by (simp add: net_addrs_def net_first_def net_size_def)

lemma cidrs_addrs:
  "h \<le> 32 \<Longrightarrow> 2 ^ h dvd base \<Longrightarrow> (\<Union>c\<in>set (cidrs t base h). net_addrs c) = addrs t base h"
proof (induction t base h rule: cidrs.induct)
  case (2 base h)
  then show ?case by (simp add: leaf_addrs)
next
  case (4 l r base h)
  then show ?case using dvd_half[of h base] by (simp add: UN_Un)
qed auto

lemma cidrs_props:
  "c \<in> set (cidrs t base h) \<Longrightarrow> h \<le> 32 \<Longrightarrow> 2 ^ h dvd base \<Longrightarrow>
   net_first c = net_value c \<and> 32 - h \<le> prefixlen c \<and> prefixlen c \<le> 32
   \<and> base \<le> net_value c \<and> net_value c + net_size c \<le> base + 2 ^ h"
proof (induction t base h rule: cidrs.induct)
  case (2 base h)
  then show ?case by (simp add: net_first_def net_size_def)
next
  case (4 l r base h)
  then show ?case using dvd_half[of h base] by auto
qed auto

lemma cidrs_sorted:
  "h \<le> 32 \<Longrightarrow> 2 ^ h dvd base \<Longrightarrow>
   sorted_wrt (\<lambda>a b. net_first a + net_size a \<le> net_first b) (cidrs t base h)"
proof (induction t base h rule: cidrs.induct)
  case (4 l r base h)
  have d: "2 ^ h dvd base" "2 ^ h dvd base + 2 ^ h" "h \<le> 32"
    using 4 dvd_half[of h base] by auto
  have "net_first a + net_size a \<le> net_first b"
    if "a \<in> set (cidrs l base h)" "b \<in> set (cidrs r (base + 2 ^ h) h)" for a b
    using cidrs_props[OF that(1) d(3) d(1)] cidrs_props[OF that(2) d(3) d(2)] by simp
  then show ?case using 4 d by (simp add: sorted_wrt_append)
qed auto

lemma supernet_left: "Suc h \<le> 32 \<Longrightarrow> 2 ^ Suc h dvd base \<Longrightarrow>
   net_addrs (supernet \<lparr>net_value = base, prefixlen = 32 - h\<rparr>) = {base ..< base + 2 ^ Suc h}"
proof -
  assume h: "Suc h \<le> 32" and d: "2 ^ Suc h dvd base"
  have "32 - h - 1 = 32 - Suc h" by simp
  then have "supernet \<lparr>net_value = base, prefixlen = 32 - h\<rparr> = \<lparr>net_value = base, prefixlen = 32 - Suc h\<rparr>"
    by (simp add: supernet_def)
  then show ?thesis using leaf_addrs[OF h d] by simp
qed

lemma supernet_right: "Suc h \<le> 32 \<Longrightarrow> 2 ^ Suc h dvd base \<Longrightarrow>
   net_addrs (supernet \<lparr>net_value = base + 2 ^ h, prefixlen = 32 - h\<rparr>) = {base ..< base + 2 ^ Suc h}"
proof -
  assume h: "Suc h \<le> 32" and d: "2 ^ Suc h dvd base"
  obtain m where m: "base = 2 ^ Suc h * m" using d by (auto elim: dvdE)
  have "(base + 2 ^ h) div 2 ^ Suc h = m"
    unfolding m by (simp add: div_mult_self4)
  then have "((base + 2 ^ h) div 2 ^ Suc h) * 2 ^ Suc h = base" using m by simp
  moreover have "32 - (32 - h - 1) = Suc h" using h by simp
  ultimately show ?thesis
    by (simp add: supernet_def net_addrs_def net_first_def net_size_def)
qed

lemma cidrs_maximal:
  "compacted t h \<Longrightarrow> h \<le> 32 \<Longrightarrow> 2 ^ h dvd base \<Longrightarrow> c \<in> set (cidrs t base h) \<Longrightarrow>
   t = AllAddr \<or> (net_addrs (supernet c) \<subseteq> {base ..< base + 2 ^ h}
                  \<and> \<not> net_addrs (supernet c) \<subseteq> addrs t base h)"
proof (induction t base h rule: cidrs.induct)
  case (4 l r base h)
  have d: "2 ^ h dvd base" "2 ^ h dvd base + 2 ^ h" "h \<le> 32"
    using 4 dvd_half[of h base] by auto
  have cl: "compacted l h" and cr: "compacted r h" using 4(3) by auto
  have notfull: "addrs (Split l r) base (Suc h) \<noteq> {base ..< base + 2 ^ Suc h}"
    using compacted_full_iff[OF 4(3), of base] by simp
  have L: "addrs l base h \<subseteq> {base ..< base + 2 ^ h}" by (rule addrs_range)
  have R: "addrs r (base + 2 ^ h) h \<subseteq> {base + 2 ^ h ..< base + 2 ^ h + 2 ^ h}" by (rule addrs_range)
  have full_sub: "\<not> {base ..< base + 2 ^ Suc h} \<subseteq> addrs (Split l r) base (Suc h)"
    using notfull addrs_range[of "Split l r" base "Suc h"] by blast
  from 4(6) consider (left) "c \<in> set (cidrs l base h)" | (right) "c \<in> set (cidrs r (base + 2 ^ h) h)"
    by auto
  then show ?case
  proof cases
    case left
    show ?thesis
    proof (cases "l = AllAddr")
      case True
      then have "c = \<lparr>net_value = base, prefixlen = 32 - h\<rparr>" using left by simp
      then have "net_addrs (supernet c) = {base ..< base + 2 ^ Suc h}"
        using supernet_left[OF 4(4) 4(5)] by simp
      then show ?thesis using full_sub by simp
    next
      case False
      then have "net_addrs (supernet c) \<subseteq> {base ..< base + 2 ^ h}"
        and n: "\<not> net_addrs (supernet c) \<subseteq> addrs l base h"
        using 4(1)[OF cl d(3) d(1) left] by auto
      then show ?thesis using R by (fastforce simp: subset_iff)
    qed
  next
    case right
    show ?thesis
    proof (cases "r = AllAddr")
      case True
      then have "c = \<lparr>net_value = base + 2 ^ h, prefixlen = 32 - h\<rparr>" using right by simp
      then have "net_addrs (supernet c) = {base ..< base + 2 ^ Suc h}"
        using supernet_right[OF 4(4) 4(5)] by simp
      then show ?thesis using full_sub by simp
    next
      case False
      then have "net_addrs (supernet c) \<subseteq> {base + 2 ^ h ..< base + 2 ^ h + 2 ^ h}"
        and n: "\<not> net_addrs (supernet c) \<subseteq> addrs r (base + 2 ^ h) h"
        using 4(2)[OF cr d(3) d(2) right] by auto
      then show ?thesis using L by (fastforce simp: subset_iff)
    qed
  qed
qed auto

lemma iter_cidrs_addrs: "(\<Union>c\<in>set (iter_cidrs s). net_addrs c) = ipset_addrs s"
  unfolding iter_cidrs_def ipset_addrs_def by (rule cidrs_addrs) auto

lemma iter_cidrs_sorted:
  "sorted_wrt (\<lambda>a b. net_first a + net_size a \<le> net_first b) (iter_cidrs s)"
  unfolding iter_cidrs_def by (rule cidrs_sorted) auto

lemma iter_cidrs_canonical:
  "c \<in> set (iter_cidrs s) \<Longrightarrow> valid_net c \<and> net_cidr c = c \<and> net_addrs c \<subseteq> ipset_addrs s"
proof -
  assume c: "c \<in> set (iter_cidrs s)"
  then have p: "net_first c = net_value c \<and> 32 - 32 \<le> prefixlen c \<and> prefixlen c \<le> 32
   \<and> 0 \<le> net_value c \<and> net_value c + net_size c \<le> 0 + 2 ^ 32"
    unfolding iter_cidrs_def by (intro cidrs_props) auto
  have "0 < net_size c" by (simp add: net_size_def)
  then have "net_value c < 2 ^ 32" using p by linarith
  moreover have "net_addrs c \<subseteq> ipset_addrs s" using c iter_cidrs_addrs[of s] by blast
  ultimately show ?thesis using p by (simp add: valid_net_def net_cidr_def)
qed

lemma iter_cidrs_maximal:
  "compacted s 32 \<Longrightarrow> c \<in> set (iter_cidrs s) \<Longrightarrow> 0 < prefixlen c \<Longrightarrow>
   \<not> net_addrs (supernet c) \<subseteq> ipset_addrs s"
proof -
  assume s: "compacted s 32" and c: "c \<in> set (iter_cidrs s)" and p: "0 < prefixlen c"
  have "s = AllAddr \<or> (net_addrs (supernet c) \<subseteq> {0 ..< 0 + 2 ^ 32}
                  \<and> \<not> net_addrs (supernet c) \<subseteq> addrs s 0 32)"
    using c unfolding iter_cidrs_def by (intro cidrs_maximal[OF s]) auto
  moreover have "s \<noteq> AllAddr" using c p by (auto simp: iter_cidrs_def)
  ultimately show ?thesis by (simp add: ipset_addrs_def)
qed

section \<open>Evaluation on concrete documents\<close>

lemmas eval_ipset =
  IPSet_def ipset_of_net_def iter_cidrs_def ipset_contains_def net_trie_0 net_trie_unfold
  cidrs_unfold t_contains_unfold

lemmas eval_names = lower_def lower_char_def query_space_def find_block_def

section \<open>Best-fit reservation when nothing fits\<close>

text \<open>
  C3. A by-size request against a block without a free prefix of length at most \<open>size\<close> is
  answered with the HTTP error 500 "Network of requested size unavailable in target block."
  whatever the flags. The block \<open>10.0.0.0/24\<close> has no free prefix of length at most 16: with
  \<open>smallest_cidr = false\<close> the handler raises that error, with \<open>smallest_cidr = true\<close> it raises
  the ValueError of \<^verbatim>\<open>max\<close> on an empty sequence instead, and writes nothing in both cases.
\<close>

theorem smallest_cidr_empty_candidates_raises_ValueError:
  "create_block_reservation [] ''r1'' 1 token_alice (by_size 16 False True) ''corp'' ''blk1'' [small_corp]
     = (Inl ValueError, [small_corp])
   \<and> create_block_reservation [] ''r1'' 1 token_alice (by_size 16 True True) ''corp'' ''blk1'' [small_corp]
     = (Inl ValueError, [small_corp])
   \<and> create_block_reservation [] ''r1'' 1 token_alice (by_size 16 False False) ''corp'' ''blk1'' [small_corp]
     = (Inl (HTTPException 500 ''Network of requested size unavailable in target block.''), [small_corp])"
  by (simp add: create_block_reservation_def create_block_reservation_body_def commit_def
      select_available_block_def available_slicer_def available_set_def block_all_cidrs_def
      by_size_def small_corp_def small_block_def eval_names eval_ipset)

section \<open>Networks available to a block: a vnet attached elsewhere\<close>

text \<open>
  C5. \<^verbatim>\<open>GET /spaces/{s}/blocks/{b}/available\<close> leaves out every vnet attached to another
  (space, block) pair, wherever the vnet stands in the candidate list. The vnet \<open>V\<close> is
  attached to \<open>block1\<close> of \<open>spaceA\<close>; the request is for \<open>block2\<close> of \<open>spaceB\<close>. When the
  inventory lists \<open>V\<close> first, \<open>V\<close> is the candidate of index 0, the test \<^verbatim>\<open>if net_index:\<close>
  fails and \<open>V\<close> stays in the answer; when the inventory lists \<open>V\<close> second, it is removed.
\<close>

theorem available_block_nets_keeps_first_attached_vnet:
  "available_block_nets [vnet_V, vnet_W] False ''spaceB'' ''block2'' [spaceA, spaceB]
     = Inr (Ids [''V'', ''W''])
   \<and> available_block_nets [vnet_W, vnet_V] False ''spaceB'' ''block2'' [spaceA, spaceB]
     = Inr (Ids [''W''])"
  unfolding available_block_nets_def spaceA_def spaceB_def vnet_V_def vnet_W_def attached_vnets_def
    Let_def
  by (simp add: eval_names eval_ipset net_contains_def drop_assigned_def del_at_def)

section \<open>Space utilization with externals\<close>

text \<open>
  C6. \<^verbatim>\<open>GET /spaces/{space}?utilization=true\<close> succeeds and counts the externals in the
  space-level \<open>used\<close>. On the space \<open>corp\<close> whose block holds one external the handler raises
  TypeError; on the space whose block holds nothing it answers with the size 256 and 0 used.
\<close>

theorem get_space_utilization_fails_on_externals:
  "get_space [] True True ''admin'' ''corp'' [ext_corp] = Inl TypeError
   \<and> get_space [] True True ''admin'' ''corp'' [small_corp]
     = Inr \<lparr>view_space = small_corp,
            view_blocks = [\<lparr>view_block = small_block, view_size = Some 256, view_used = Some 0\<rparr>],
            space_size = Some 256, space_used = Some 0\<rparr>"
  by (simp add: get_space_def ext_corp_def ext_block_def small_corp_def small_block_def
      own_resv_def net_size_def eval_names)

section \<open>Patching the CIDR of a block\<close>

lemma resv_corp_facts:
  "query_space [resv_corp] ''corp'' = [resv_corp]"
  "find_block resv_corp ''BLK1'' = Some resv_block"
  "find_block resv_corp ''blk1'' = Some resv_block"
  "space_blocks resv_corp = [resv_block]"
  "lower (block_name resv_block) = lower ''BLK1''"
  "lower (block_name resv_block) = lower ''blk1''"
  by (simp_all add: resv_corp_def resv_block_def eval_names)

lemmas eval_cidr_update =
  valid_block_cidr_update_def resv_corp_def resv_block_def resv_200_def space_cidrs_def
  block_cidrs_def issubset_def Let_def

lemma cidr_update_other_case:
  "valid_block_cidr_update [] (Parsed \<lparr>net_value = 167837696, prefixlen = 16\<rparr>) ''corp'' ''BLK1''
     [resv_corp] = Inr True"
  unfolding eval_cidr_update
  by (simp add: eval_names eval_ipset net_cidr_def net_first_def net_size_def unsettled_def)

lemma cidr_update_same_case:
  "valid_block_cidr_update [] (Parsed \<lparr>net_value = 167837696, prefixlen = 16\<rparr>) ''corp'' ''blk1''
     [resv_corp] = Inr False"
  unfolding eval_cidr_update
  by (simp add: eval_names eval_ipset net_cidr_def net_first_def net_size_def unsettled_def)

text \<open>
  C7. A patch that replaces \<^verbatim>\<open>/cidr\<close> of a block is accepted only if the new CIDR covers
  every child prefix of the block. The block \<open>blk1\<close> = \<open>10.0.0.0/16\<close> holds the unsettled
  reservation \<open>10.0.200.0/24\<close>. Addressed as \<open>blk1\<close>, the patch to \<open>10.1.0.0/16\<close> is refused
  with 400; addressed as \<open>BLK1\<close>, which the handler resolves to the same block, the patch is
  accepted and written, and the reservation lies outside the new CIDR.
\<close>

theorem update_block_cidr_skips_coverage_for_other_case:
  "update_block [] True [ReplaceCidr (Parsed \<lparr>net_value = 167837696, prefixlen = 16\<rparr>)]
     ''corp'' ''BLK1'' [resv_corp]
     = (Inr (resv_block\<lparr>block_cidr := \<lparr>net_value = 167837696, prefixlen = 16\<rparr>\<rparr>),
        [resv_corp\<lparr>space_blocks :=
           [resv_block\<lparr>block_cidr := \<lparr>net_value = 167837696, prefixlen = 16\<rparr>\<rparr>]\<rparr>])
   \<and> update_block [] True [ReplaceCidr (Parsed \<lparr>net_value = 167837696, prefixlen = 16\<rparr>)]
     ''corp'' ''blk1'' [resv_corp]
     = (Inl (HTTPException 400 ''Block CIDR must be in valid CIDR notation (x.x.x.x/x), cannot overlap existing Blocks within the Space and must contain all existing Virtual Networks, External Networks and unfulfilled Reservations within the Block.''),
        [resv_corp])
   \<and> resv_200 \<in> set (block_resv resv_block) \<and> unsettled resv_200
   \<and> net_addrs (resv_cidr resv_200) \<inter> net_addrs \<lparr>net_value = 167837696, prefixlen = 16\<rparr> = {}"
  by (simp add: update_block_def update_block_body_def cidr_update_other_case
      cidr_update_same_case resv_corp_facts commit_def cosmos_replace_def Let_def)
     (simp add: resv_block_def resv_200_def unsettled_def net_addrs_def net_first_def net_size_def)

section \<open>Attaching a network with two prefixes inside the block\<close>

lemma net_corp_facts:
  "query_space [net_corp] ''corp'' = [net_corp]"
  "find_block net_corp ''blk1'' = Some net_block"
  "space_blocks net_corp = [net_block]"
  "lower (block_name net_block) = lower ''blk1''"
  by (simp_all add: net_corp_def net_block_def eval_names)

lemma create_block_net_V2:
  "create_block_net_body [vnet_V2] True ''V2'' ''corp'' ''blk1'' [net_corp]
     = Inr (net_corp, net_corp\<lparr>space_blocks := [attached_block]\<rparr>, attached_block)"
  unfolding create_block_net_body_def Let_def
  apply (simp add: net_corp_facts)
  apply (simp add: net_corp_def net_block_def vnet_V2_def resv_1_def unsettled_def vnet_prefixes_def
      net_contains_def eval_ipset lower_def lower_char_def attached_block_def)
  done

lemma I3_net_block: "I3 [vnet_V2] net_block"
  by (simp add: I3_def block_all_cidrs_def net_block_def resv_1_def unsettled_def net_addrs_def
      net_first_def net_size_def)

lemma not_I3_attached_block: "\<not> I3 [vnet_V2] attached_block"
  by (simp add: I3_def block_all_cidrs_def attached_block_def net_block_def resv_1_def
      unsettled_def vnet_prefixes_def vnet_V2_def net_contains_def lower_def lower_char_def
      net_addrs_def net_first_def net_size_def)

text \<open>
  C9. Every successful mutating operation preserves I3. The block \<open>10.0.0.0/16\<close> with the
  unsettled reservation \<open>10.0.1.0/24\<close> satisfies I3. \<^verbatim>\<open>POST .../networks\<close> with the vnet \<open>V2\<close>,
  whose prefixes \<open>10.0.0.0/24\<close> and \<open>10.0.1.0/24\<close> both lie inside the block, checks only the
  first of them against the claims of the block, succeeds, and writes a block that violates
  I3: the second prefix of \<open>V2\<close> is the CIDR of the reservation.
\<close>

theorem create_block_net_breaks_I3:
  "I3 [vnet_V2] net_block
   \<and> create_block_net [vnet_V2] True ''V2'' ''corp'' ''blk1'' [net_corp]
       = (Inr attached_block, [net_corp\<lparr>space_blocks := [attached_block]\<rparr>])
   \<and> \<not> I3 [vnet_V2] attached_block"
  by (simp add: I3_net_block not_I3_attached_block create_block_net_def create_block_net_V2
      commit_def cosmos_replace_def)

theorem create_block_net_breaks_I3_witness:
  "\<not> I3 [vnet_V2] attached_block"
  using create_block_net_breaks_I3 by simp

section \<open>Lists, subnets and the free set\<close>

lemma find_split:
  "find P xs = Some p \<Longrightarrow> \<exists>ys zs. xs = ys @ p # zs \<and> P p \<and> (\<forall>y\<in>set ys. \<not> P y)"
proof (induction xs)
  case Nil
  then show ?case by simp
next
  case (Cons x xs)
  show ?case
  proof (cases "P x")
    case True
    then have "x = p" using Cons.prems by simp
    then have "x # xs = [] @ p # xs \<and> P p \<and> (\<forall>y\<in>set []. \<not> P y)" using True by simp
    then show ?thesis by blast
  next
    case False
    then have "find P xs = Some p" using Cons.prems by simp
    then obtain ys zs where "xs = ys @ p # zs" "P p" "\<forall>y\<in>set ys. \<not> P y"
      using Cons.IH by blast
    then have "x # xs = (x # ys) @ p # zs \<and> P p \<and> (\<forall>y\<in>set (x # ys). \<not> P y)"
      using False by simp
    then show ?thesis by blast
  qed
qed

lemma find_None_iff': "find P xs = None \<longleftrightarrow> (\<forall>x\<in>set xs. \<not> P x)"
  by (induction xs) auto

lemma update_first_find:
  "find P xs = Some x \<Longrightarrow>
   \<exists>i<length xs. xs ! i = x \<and> (\<forall>j<i. \<not> P (xs ! j)) \<and> update_first P f xs = xs[i := f x]"
proof (induction xs)
  case Nil
  then show ?case by simp
next
  case (Cons y ys)
  show ?case
  proof (cases "P y")
    case True
    then have "y = x" using Cons.prems by simp
    then have "0 < length (y # ys) \<and> (y # ys) ! 0 = x \<and> (\<forall>j<0. \<not> P ((y # ys) ! j))
        \<and> update_first P f (y # ys) = (y # ys)[0 := f x]"
      using True by simp
    then show ?thesis by blast
  next
    case False
    then have "find P ys = Some x" using Cons.prems by simp
    then obtain i where i: "i < length ys" "ys ! i = x" "\<forall>j<i. \<not> P (ys ! j)"
      "update_first P f ys = ys[i := f x]"
      using Cons.IH by blast
    have "\<forall>j<Suc i. \<not> P ((y # ys) ! j)"
      using False i(3) by (auto simp: less_Suc_eq_0_disj)
    then have "Suc i < length (y # ys) \<and> (y # ys) ! Suc i = x \<and> (\<forall>j<Suc i. \<not> P ((y # ys) ! j))
        \<and> update_first P f (y # ys) = (y # ys)[Suc i := f x]"
      using False i by simp
    then show ?thesis by blast
  qed
qed

lemma subnet_count:
  "p \<le> newlen \<Longrightarrow> newlen \<le> 32 \<Longrightarrow> (2::nat) ^ (32 - p) div 2 ^ (32 - newlen) = 2 ^ (newlen - p)"
proof -
  assume a: "p \<le> newlen" "newlen \<le> 32"
  have "(2::nat) ^ (32 - p) div 2 ^ (32 - newlen) = 2 ^ ((32 - p) - (32 - newlen))"
    using a by (intro power_diff[symmetric]) auto
  moreover have "(32 - p) - (32 - newlen) = newlen - p" using a by simp
  ultimately show ?thesis by simp
qed

lemma subnet_eq:
  "prefixlen n \<le> newlen \<Longrightarrow> newlen \<le> 32 \<Longrightarrow>
   subnet n newlen =
     map (\<lambda>i. \<lparr>net_value = net_first n + 2 ^ (32 - newlen) * i, prefixlen = newlen\<rparr>)
       [0 ..< 2 ^ (newlen - prefixlen n)]"
  by (simp add: subnet_def subnet_count)

lemma size_split:
  "p \<le> newlen \<Longrightarrow> newlen \<le> 32 \<Longrightarrow> (2::nat) ^ (32 - p) = 2 ^ (32 - newlen) * 2 ^ (newlen - p)"
  by (simp flip: power_add)

lemma aligned_sub:
  fixes s k q i :: nat
  assumes "0 < s" "i < k"
  shows "((s * (k * q) + s * i) div s) * s = s * (k * q) + s * i" and "s * i + s \<le> s * k"
proof -
  have "s * (k * q) + s * i = s * (k * q + i)" by (simp only: distrib_left)
  then show "((s * (k * q) + s * i) div s) * s = s * (k * q) + s * i"
    using assms(1) by (simp only: nonzero_mult_div_cancel_left mult.commute[of _ s])
  have "Suc i \<le> k" using assms(2) by simp
  then have "s * Suc i \<le> s * k" by (rule mult_le_mono2)
  then show "s * i + s \<le> s * k" by simp
qed

lemma subnet_member_addrs:
  assumes "prefixlen n \<le> newlen" "newlen \<le> 32" "i < 2 ^ (newlen - prefixlen n)"
  defines "c \<equiv> \<lparr>net_value = net_first n + 2 ^ (32 - newlen) * i, prefixlen = newlen\<rparr>"
  shows "net_first c = net_value c" and "net_addrs c \<subseteq> net_addrs n"
proof -
  define s :: nat where "s = 2 ^ (32 - newlen)"
  define k :: nat where "k = 2 ^ (newlen - prefixlen n)"
  define q where "q = net_value n div net_size n"
  have s0: "0 < s" by (simp add: s_def)
  have ik: "i < k" using assms(3) by (simp add: k_def)
  have S: "net_size n = s * k" unfolding s_def k_def net_size_def using assms(1,2) by (rule size_split)
  have "net_first n = q * net_size n" by (simp add: net_first_def q_def)
  then have F: "net_first n = s * (k * q)" by (simp add: S mult_ac)
  have "net_value c = net_first n + s * i" by (simp add: c_def s_def)
  then have cs: "net_size c = s" "net_value c = s * (k * q) + s * i"
    unfolding F by (simp_all add: c_def net_size_def s_def)
  show 1: "net_first c = net_value c"
    unfolding net_first_def cs by (rule aligned_sub(1)[OF s0 ik])
  have "s * i + s \<le> s * k" by (rule aligned_sub(2)[OF s0 ik])
  then show "net_addrs c \<subseteq> net_addrs n"
    unfolding net_addrs_def 1 cs F S by auto
qed

lemma next_selector_subnet:
  assumes "prefixlen n \<le> newlen" "newlen \<le> 32"
  shows "next_selector rv (subnet n newlen) =
     Inr (if rv then \<lparr>net_value = net_first n + 2 ^ (32 - newlen) * (2 ^ (newlen - prefixlen n) - 1),
                      prefixlen = newlen\<rparr>
          else \<lparr>net_value = net_first n, prefixlen = newlen\<rparr>)"
proof -
  let ?f = "\<lambda>i. \<lparr>net_value = net_first n + 2 ^ (32 - newlen) * i, prefixlen = newlen\<rparr>"
  let ?k = "(2::nat) ^ (newlen - prefixlen n)"
  have k: "0 < ?k" by simp
  have e: "subnet n newlen = map ?f [0 ..< ?k]" using assms by (rule subnet_eq)
  have ne: "[0 ..< ?k] \<noteq> []" using k by simp
  have h: "hd (subnet n newlen) = ?f 0"
    unfolding e using hd_map[OF ne, of ?f] hd_upt[OF k] by simp
  have l: "last (subnet n newlen) = ?f (?k - 1)"
    unfolding e using last_map[OF ne, of ?f] last_upt[OF k] by simp
  show ?thesis
  proof (cases "subnet n newlen")
    case Nil
    then show ?thesis using ne e by simp
  next
    case (Cons y ys)
    then have "y = ?f 0" "last (y # ys) = ?f (?k - 1)" using h l by simp_all
    then show ?thesis unfolding next_selector_def Cons by simp
  qed
qed

lemma canonical_first: "net_cidr p = p \<Longrightarrow> net_first p = net_value p"
proof -
  assume "net_cidr p = p"
  then have "net_value (net_cidr p) = net_value p" by simp
  then show ?thesis by (simp add: net_cidr_def)
qed

lemma last_subnet_value:
  fixes v :: nat
  assumes "p \<le> sz" "sz \<le> 32"
  shows "v + 2 ^ (32 - sz) * (2 ^ (sz - p) - 1) = v + 2 ^ (32 - p) - 2 ^ (32 - sz)"
proof -
  define s :: nat where "s = 2 ^ (32 - sz)"
  define k :: nat where "k = 2 ^ (sz - p)"
  have S: "(2::nat) ^ (32 - p) = s * k" unfolding s_def k_def using assms by (rule size_split)
  have k: "1 \<le> k" by (simp add: k_def)
  have "s * (k - 1) = s * k - s" by (simp add: diff_mult_distrib2)
  moreover have "s \<le> s * k" using k by simp
  ultimately have "v + s * (k - 1) = v + s * k - s" by simp
  then show ?thesis unfolding S by (simp only: s_def k_def)
qed

lemma carve_subnet:
  fixes rv :: bool
  assumes p: "net_cidr p = p" and sz: "prefixlen p \<le> sz" "sz \<le> 32"
  defines "cidr \<equiv> (if rv then \<lparr>net_value = net_value p + net_size p - 2 ^ (32 - sz), prefixlen = sz\<rparr>
                     else \<lparr>net_value = net_value p, prefixlen = sz\<rparr>)"
  shows "next_selector rv (subnet p sz) = Inr cidr" and "net_addrs cidr \<subseteq> net_addrs p"
proof -
  have first: "net_first p = net_value p" using p by (rule canonical_first)
  have last: "net_value p + 2 ^ (32 - sz) * (2 ^ (sz - prefixlen p) - 1)
              = net_value p + net_size p - 2 ^ (32 - sz)"
    unfolding net_size_def using sz by (rule last_subnet_value)
  show "next_selector rv (subnet p sz) = Inr cidr"
    unfolding next_selector_subnet[OF sz] cidr_def first last by simp
  have a: "net_addrs \<lparr>net_value = net_first p + 2 ^ (32 - sz) * 0, prefixlen = sz\<rparr> \<subseteq> net_addrs p"
    using sz by (intro subnet_member_addrs(2)) simp_all
  have b: "net_addrs \<lparr>net_value = net_first p + 2 ^ (32 - sz) * (2 ^ (sz - prefixlen p) - 1), prefixlen = sz\<rparr>
           \<subseteq> net_addrs p"
    using sz by (intro subnet_member_addrs(2)) simp_all
  have a': "net_addrs \<lparr>net_value = net_value p, prefixlen = sz\<rparr> \<subseteq> net_addrs p"
    using a unfolding first by simp
  have b': "net_addrs \<lparr>net_value = net_value p + net_size p - 2 ^ (32 - sz), prefixlen = sz\<rparr> \<subseteq> net_addrs p"
    using b unfolding first last .
  show "net_addrs cidr \<subseteq> net_addrs p"
    unfolding cidr_def using a' b' by (cases rv) simp_all
qed

lemma available_set_meaning:
  assumes "valid_block net_list b" "I3 net_list b"
  shows "compacted (available_set net_list b) 32"
    and "ipset_addrs (available_set net_list b) =
         net_addrs (block_cidr b) - (\<Union>c\<in>set (block_all_cidrs net_list b). net_addrs c)"
proof -
  let ?A = "IPSet [block_cidr b]" and ?B = "IPSet (block_all_cidrs net_list b)"
  have vA: "\<forall>n\<in>set [block_cidr b]. valid_net n" using assms(1) by (simp add: valid_block_def)
  have vB: "\<forall>n\<in>set (block_all_cidrs net_list b). valid_net n"
    using assms(1) by (simp add: valid_block_def)
  have cA: "compacted ?A 32" using vA by (rule IPSet_compacted)
  have cB: "compacted ?B 32" using vB by (rule IPSet_compacted)
  have aA: "ipset_addrs ?A = net_addrs (block_cidr b)" using IPSet_addrs[OF vA] by simp
  have aB: "ipset_addrs ?B = (\<Union>c\<in>set (block_all_cidrs net_list b). net_addrs c)"
    using vB by (rule IPSet_addrs)
  have sub: "ipset_addrs ?B \<subseteq> ipset_addrs ?A"
    unfolding aA aB using assms(2) by (auto simp: I3_def)
  show "compacted (available_set net_list b) 32"
    unfolding available_set_def using cA cB by (rule t_xor_compacted)
  have "ipset_addrs (available_set net_list b)
        = (ipset_addrs ?A - ipset_addrs ?B) \<union> (ipset_addrs ?B - ipset_addrs ?A)"
    unfolding available_set_def ipset_addrs_def using cA cB by (rule t_xor_addrs)
  also have "\<dots> = ipset_addrs ?A - ipset_addrs ?B" using sub by blast
  finally show "ipset_addrs (available_set net_list b) =
         net_addrs (block_cidr b) - (\<Union>c\<in>set (block_all_cidrs net_list b). net_addrs c)"
    unfolding aA aB .
qed

lemma find_block_index:
  "find_block sp name = Some b \<Longrightarrow>
   \<exists>i<length (space_blocks sp). space_blocks sp ! i = b
     \<and> (\<forall>j<i. lower (block_name (space_blocks sp ! j)) \<noteq> lower name)
     \<and> update_first (\<lambda>x. lower (block_name x) = lower name) f (space_blocks sp)
         = (space_blocks sp)[i := f b]"
  unfolding find_block_def by (rule update_first_find)

lemma free_prefix_props:
  assumes "valid_block net_list b" "I3 net_list b" "p \<in> set (iter_cidrs (available_set net_list b))"
  shows "valid_net p" "net_cidr p = p"
    "net_addrs p \<subseteq> net_addrs (block_cidr b) - (\<Union>c\<in>set (block_all_cidrs net_list b). net_addrs c)"
    "0 < prefixlen p \<Longrightarrow>
       \<not> net_addrs (supernet p) \<subseteq> net_addrs (block_cidr b) - (\<Union>c\<in>set (block_all_cidrs net_list b). net_addrs c)"
  using iter_cidrs_canonical[OF assms(3)] iter_cidrs_maximal[OF available_set_meaning(1)[OF assms(1,2)] assms(3)]
  unfolding available_set_meaning(2)[OF assms(1,2)] by simp_all

lemma vnet_prefixes_set:
  "c \<in> set (vnet_prefixes net_list b v) \<longleftrightarrow>
   (\<exists>t. find (\<lambda>x. lower (network_id x) = lower (vnet_id v)) net_list = Some t
        \<and> c \<in> set (network_prefixes t) \<and> net_contains (block_cidr b) c)"
  unfolding vnet_prefixes_def by (cases "find (\<lambda>x. lower (network_id x) = lower (vnet_id v)) net_list") auto

lemma unsettled_iff: "unsettled r \<longleftrightarrow> settledOn r = None \<or> settledOn r = Some 0"
  unfolding unsettled_def by (cases "settledOn r") auto

lemma claimed_addrs_eq:
  "(\<Union>c\<in>set (block_all_cidrs net_list b). net_addrs c) = claimed_addrs net_list b"
proof -
  have A: "(\<Union>c\<in>set (concat (map (vnet_prefixes net_list b) (block_vnets b))). net_addrs c)
     = {a. \<exists>v\<in>set (block_vnets b). \<exists>t. \<exists>c\<in>set (network_prefixes t).
           find (\<lambda>x. lower (network_id x) = lower (vnet_id v)) net_list = Some t
           \<and> net_contains (block_cidr b) c \<and> a \<in> net_addrs c}"
  proof (rule set_eqI)
    fix a
    have "a \<in> (\<Union>c\<in>set (concat (map (vnet_prefixes net_list b) (block_vnets b))). net_addrs c)
      \<longleftrightarrow> (\<exists>v\<in>set (block_vnets b). \<exists>c. c \<in> set (vnet_prefixes net_list b v) \<and> a \<in> net_addrs c)"
      by auto
    also have "\<dots> \<longleftrightarrow> (\<exists>v\<in>set (block_vnets b). \<exists>t. \<exists>c\<in>set (network_prefixes t).
           find (\<lambda>x. lower (network_id x) = lower (vnet_id v)) net_list = Some t
           \<and> net_contains (block_cidr b) c \<and> a \<in> net_addrs c)"
      unfolding vnet_prefixes_set by blast
    finally show "a \<in> (\<Union>c\<in>set (concat (map (vnet_prefixes net_list b) (block_vnets b))). net_addrs c)
      \<longleftrightarrow> a \<in> {a. \<exists>v\<in>set (block_vnets b). \<exists>t. \<exists>c\<in>set (network_prefixes t).
           find (\<lambda>x. lower (network_id x) = lower (vnet_id v)) net_list = Some t
           \<and> net_contains (block_cidr b) c \<and> a \<in> net_addrs c}"
      by simp
  qed
  have B: "(\<Union>c\<in>set (map resv_cidr (filter unsettled (block_resv b))). net_addrs c)
     = {a. \<exists>r\<in>set (block_resv b).
           (settledOn r = None \<or> settledOn r = Some 0) \<and> a \<in> net_addrs (resv_cidr r)}"
    by (auto simp: unsettled_iff)
  have C: "(\<Union>c\<in>set (map ext_cidr (block_externals b)). net_addrs c)
     = {a. \<exists>e\<in>set (block_externals b). a \<in> net_addrs (ext_cidr e)}"
    by auto
  have "(\<Union>c\<in>set (block_all_cidrs net_list b). net_addrs c)
     = (\<Union>c\<in>set (concat (map (vnet_prefixes net_list b) (block_vnets b))). net_addrs c)
       \<union> (\<Union>c\<in>set (map resv_cidr (filter unsettled (block_resv b))). net_addrs c)
       \<union> (\<Union>c\<in>set (map ext_cidr (block_externals b)). net_addrs c)"
    unfolding block_all_cidrs_def by (simp only: set_append UN_Un Un_assoc)
  then show ?thesis unfolding A B C claimed_addrs_def .
qed

lemma free_addrs_eq:
  assumes "valid_block net_list b" "I3 net_list b"
  shows "ipset_addrs (available_set net_list b) = free_addrs net_list b"
  unfolding free_addrs_def available_set_meaning(2)[OF assms] claimed_addrs_eq ..

lemma free_list:
  assumes "valid_block net_list b" "I3 net_list b"
  shows "ascending_maximal_prefixes (free_addrs net_list b) (iter_cidrs (available_set net_list b))"
proof -
  have c: "compacted (available_set net_list b) 32" using assms by (rule available_set_meaning(1))
  have "maximal_prefix (free_addrs net_list b) p" if "p \<in> set (iter_cidrs (available_set net_list b))" for p
    using iter_cidrs_canonical[OF that] iter_cidrs_maximal[OF c that]
    unfolding maximal_prefix_def free_addrs_eq[OF assms] by simp
  then show ?thesis
    unfolding ascending_maximal_prefixes_def
    using iter_cidrs_addrs[of "available_set net_list b"] iter_cidrs_sorted[of "available_set net_list b"]
    unfolding free_addrs_eq[OF assms] by simp
qed

lemma find_first:
  "xs = before @ p # after \<Longrightarrow> \<forall>q\<in>set before. \<not> P q \<Longrightarrow> P p \<Longrightarrow> find P xs = Some p"
  by (induction before arbitrary: xs) auto

lemma creator_id_eq:
  "preferred_username decoded = Some creator
   \<or> preferred_username decoded = None \<and> (\<exists>i. oid decoded = Some i \<and> creator = ''spn:'' @ i)
   \<Longrightarrow> creator_id decoded = Inr creator"
  unfolding creator_id_def by auto

lemma by_size_result:
  fixes req :: block_cidr_req and uuid :: string and now :: real
  assumes space: "filter (\<lambda>c. lower (space_name c) = lower space) store = target_space # others"
    and block: "find (\<lambda>x. lower (block_name x) = lower block) (space_blocks target_space)
                  = Some target_block"
    and by_size: "req_cidr req = None" "req_size req \<le> 32"
    and creator: "creator_id decoded = Inr creator"
    and sel: "select_available_block (req_smallest_cidr req) (req_reverse_search req) (req_size req)
                (available_set net_list target_block) = Inr (Some p)"
    and p: "net_cidr p = p" "prefixlen p \<le> req_size req"
  defines "cidr \<equiv> (if req_reverse_search req
                     then \<lparr>net_value = net_value p + 2 ^ (32 - prefixlen p) - 2 ^ (32 - req_size req),
                           prefixlen = req_size req\<rparr>
                     else \<lparr>net_value = net_value p, prefixlen = req_size req\<rparr>)"
  defines "r \<equiv> \<lparr>resv_id = uuid, resv_cidr = cidr, resv_desc = req_desc req, createdOn = now,
                  createdBy = creator, settledOn = None, settledBy = None, resv_status = ''wait''\<rparr>"
  shows "\<exists>i<length (space_blocks target_space). space_blocks target_space ! i = target_block
      \<and> create_block_reservation net_list uuid now decoded req space block store
        = (Inr \<lparr>resp_resv = r, resp_space = space_name target_space,
                 resp_block = block_name target_block\<rparr>,
           map (\<lambda>c. if space_id c = space_id target_space
                     then target_space\<lparr>space_blocks :=
                            (space_blocks target_space)
                              [i := target_block\<lparr>block_resv := block_resv target_block @ [r]\<rparr>]\<rparr>
                     else c) store)"
    and "net_addrs cidr \<subseteq> net_addrs p"
proof -
  have carve: "next_selector (req_reverse_search req) (subnet p (req_size req)) = Inr cidr"
    "net_addrs cidr \<subseteq> net_addrs p"
    unfolding cidr_def
    using carve_subnet[OF p(1) p(2) by_size(2), of "req_reverse_search req", unfolded net_size_def]
    by simp_all
  show "net_addrs cidr \<subseteq> net_addrs p" by (rule carve(2))
  have fb: "find_block target_space block = Some target_block"
    unfolding find_block_def by (rule block)
  obtain i where i: "i < length (space_blocks target_space)" "space_blocks target_space ! i = target_block"
    "update_first (\<lambda>x. lower (block_name x) = lower block) (append_resv r) (space_blocks target_space)
         = (space_blocks target_space)[i := append_resv r target_block]"
    using find_block_index[OF fb] by blast
  have r: "new_cidr uuid now creator (req_desc req) cidr = r"
    by (simp add: new_cidr_def r_def)
  have body: "create_block_reservation_body net_list uuid now decoded req space block store
     = Inr (target_space,
            target_space\<lparr>space_blocks := (space_blocks target_space)[i := append_resv r target_block]\<rparr>,
            \<lparr>resp_resv = r, resp_space = space_name target_space, resp_block = block_name target_block\<rparr>)"
    unfolding create_block_reservation_body_def query_space_def
    using by_size by (simp add: space fb sel subnet_list_def carve creator i(3) r Let_def)
  have "create_block_reservation net_list uuid now decoded req space block store
        = (Inr \<lparr>resp_resv = r, resp_space = space_name target_space,
                 resp_block = block_name target_block\<rparr>,
           map (\<lambda>c. if space_id c = space_id target_space
                     then target_space\<lparr>space_blocks :=
                            (space_blocks target_space)
                              [i := target_block\<lparr>block_resv := block_resv target_block @ [r]\<rparr>]\<rparr>
                     else c) store)"
    by (simp add: create_block_reservation_def body commit_def cosmos_replace_def append_resv_def)
  then show "\<exists>i<length (space_blocks target_space). space_blocks target_space ! i = target_block
      \<and> create_block_reservation net_list uuid now decoded req space block store
        = (Inr \<lparr>resp_resv = r, resp_space = space_name target_space,
                 resp_block = block_name target_block\<rparr>,
           map (\<lambda>c. if space_id c = space_id target_space
                     then target_space\<lparr>space_blocks :=
                            (space_blocks target_space)
                              [i := target_block\<lparr>block_resv := block_resv target_block @ [r]\<rparr>]\<rparr>
                     else c) store)"
    using i(1,2) by blast
qed

section \<open>First-fit reservation by size\<close>

text \<open>
  C1. \<^verbatim>\<open>POST /spaces/{s}/blocks/{b}/reservations\<close> with a request that carries only a size
  (at most 32, the width of an IPv4 address) and not \<^verbatim>\<open>smallest_cidr\<close>, on a block whose
  document satisfies I3 and has a free prefix of that length or shorter. The list scanned is
  the list of the maximal prefixes of the free addresses of the block (its CIDR minus the
  in-block vnet prefixes, the unsettled reservations and the externals) in ascending order,
  reversed when \<^verbatim>\<open>reverse_search\<close> is set. The prefix \<open>p\<close> chosen is the first of the scan whose
  length is at most the size: every prefix before it is longer than the size. The CIDR
  reserved has the requested length, lies inside \<open>p\<close>, and is the first subnet of that length
  of \<open>p\<close> (it starts where \<open>p\<close> starts), or with \<^verbatim>\<open>reverse_search\<close> the last one (it ends where
  \<open>p\<close> ends). The reservation returned carries that CIDR, the status \<open>wait\<close> and the caller
  as creator; the document written differs from the one read only by this reservation,
  appended to the reservations of the target block.
\<close>

theorem first_fit_reservation:
  fixes req :: block_cidr_req and uuid :: string and now :: real
  assumes space: "filter (\<lambda>c. lower (space_name c) = lower space) store = target_space # others"
    and block: "find (\<lambda>x. lower (block_name x) = lower block) (space_blocks target_space)
                  = Some target_block"
    and valid: "valid_block net_list target_block"
    and inv: "I3 net_list target_block"
    and by_size: "req_cidr req = None" "\<not> req_smallest_cidr req" "req_size req \<le> 32"
    and creator: "preferred_username decoded = Some creator
                  \<or> preferred_username decoded = None
                    \<and> (\<exists>i. oid decoded = Some i \<and> creator = ''spn:'' @ i)"
    and fits: "\<exists>q\<in>set (iter_cidrs (available_set net_list target_block)). prefixlen q \<le> req_size req"
  shows "\<exists>before p after i cidr r.
      ascending_maximal_prefixes (free_addrs net_list target_block)
        (iter_cidrs (available_set net_list target_block))
    \<and> (if req_reverse_search req then rev (iter_cidrs (available_set net_list target_block))
        else iter_cidrs (available_set net_list target_block)) = before @ p # after
    \<and> (\<forall>q\<in>set before. req_size req < prefixlen q)
    \<and> prefixlen p \<le> req_size req
    \<and> cidr = (if req_reverse_search req
               then \<lparr>net_value = net_value p + 2 ^ (32 - prefixlen p) - 2 ^ (32 - req_size req),
                     prefixlen = req_size req\<rparr>
               else \<lparr>net_value = net_value p, prefixlen = req_size req\<rparr>)
    \<and> prefixlen cidr = req_size req
    \<and> net_addrs cidr \<subseteq> net_addrs p
    \<and> net_addrs p \<subseteq> free_addrs net_list target_block
    \<and> r = \<lparr>resv_id = uuid, resv_cidr = cidr, resv_desc = req_desc req, createdOn = now,
             createdBy = creator, settledOn = None, settledBy = None, resv_status = ''wait''\<rparr>
    \<and> i < length (space_blocks target_space) \<and> space_blocks target_space ! i = target_block
    \<and> create_block_reservation net_list uuid now decoded req space block store
        = (Inr \<lparr>resp_resv = r, resp_space = space_name target_space,
                 resp_block = block_name target_block\<rparr>,
           map (\<lambda>c. if space_id c = space_id target_space
                     then target_space\<lparr>space_blocks :=
                            (space_blocks target_space)
                              [i := target_block\<lparr>block_resv := block_resv target_block @ [r]\<rparr>]\<rparr>
                     else c) store)"
proof -
  let ?rv = "req_reverse_search req" and ?sz = "req_size req"
  let ?free = "iter_cidrs (available_set net_list target_block)"
  let ?scan = "if ?rv then rev ?free else ?free"
  have asc: "ascending_maximal_prefixes (free_addrs net_list target_block) ?free"
    using valid inv by (rule free_list)
  have "set ?scan = set ?free" by simp
  then have "find (\<lambda>net. prefixlen net \<le> ?sz) ?scan \<noteq> None"
    using fits by (auto simp: find_None_iff)
  then obtain p where found: "find (\<lambda>net. prefixlen net \<le> ?sz) ?scan = Some p" by blast
  obtain before after where split: "?scan = before @ p # after" "prefixlen p \<le> ?sz"
      "\<forall>y\<in>set before. \<not> prefixlen y \<le> ?sz"
    using find_split[OF found] by blast
  have "p \<in> set ?scan" using split(1) by simp
  then have pin: "p \<in> set ?free" by (simp split: if_splits)
  then have mp: "maximal_prefix (free_addrs net_list target_block) p"
    using asc by (simp add: ascending_maximal_prefixes_def)
  then have pc: "net_cidr p = p" and pf: "net_addrs p \<subseteq> free_addrs net_list target_block"
    by (simp_all add: maximal_prefix_def)
  define cidr where "cidr = (if ?rv
               then \<lparr>net_value = net_value p + 2 ^ (32 - prefixlen p) - 2 ^ (32 - ?sz), prefixlen = ?sz\<rparr>
               else \<lparr>net_value = net_value p, prefixlen = ?sz\<rparr>)"
  define r where "r = \<lparr>resv_id = uuid, resv_cidr = cidr, resv_desc = req_desc req, createdOn = now,
             createdBy = creator, settledOn = None, settledBy = None, resv_status = ''wait''\<rparr>"
  have sel: "select_available_block (req_smallest_cidr req) ?rv ?sz (available_set net_list target_block)
             = Inr (Some p)"
    using found by_size(2) by (simp add: select_available_block_def available_slicer_def)
  note res1 = by_size_result(1)[OF space block by_size(1,3) creator_id_eq[OF creator] sel pc split(2),
      where uuid = uuid and now = now, folded cidr_def, folded r_def]
  note res2 = by_size_result(2)[OF space block by_size(1,3) creator_id_eq[OF creator] sel pc split(2),
      folded cidr_def]
  obtain i where i: "i < length (space_blocks target_space)" "space_blocks target_space ! i = target_block"
    "create_block_reservation net_list uuid now decoded req space block store
        = (Inr \<lparr>resp_resv = r, resp_space = space_name target_space,
                 resp_block = block_name target_block\<rparr>,
           map (\<lambda>c. if space_id c = space_id target_space
                     then target_space\<lparr>space_blocks :=
                            (space_blocks target_space)
                              [i := target_block\<lparr>block_resv := block_resv target_block @ [r]\<rparr>]\<rparr>
                     else c) store)"
    using res1 by blast
  have before: "\<forall>q\<in>set before. ?sz < prefixlen q" using split(3) by auto
  have len: "prefixlen cidr = ?sz" by (simp add: cidr_def)
  show ?thesis
    apply (rule exI[of _ before], rule exI[of _ p], rule exI[of _ after],
        rule exI[of _ i], rule exI[of _ cidr], rule exI[of _ r])
    using asc split(1,2) before len res2 pf i cidr_def r_def by simp
qed

text \<open>
  The block of \<open>split_corp\<close> has the free prefixes \<open>10.0.0.0/18\<close> and \<open>10.0.128.0/17\<close>. A
  request for a /24 with \<^verbatim>\<open>reverse_search\<close> scans them in descending order and gets the last
  /24 of \<open>10.0.128.0/17\<close>, \<open>10.0.255.0/24\<close>; a request for a /17 in ascending order passes
  over \<open>10.0.0.0/18\<close> and gets \<open>10.0.128.0/17\<close>.
\<close>

lemma split_corp_facts:
  "filter (\<lambda>c. lower (space_name c) = lower ''corp'') [spaceA, split_corp] = [split_corp]"
  "find (\<lambda>x. lower (block_name x) = lower ''blk1'') (space_blocks split_corp) = Some split_block"
  "space_blocks split_corp = [split_block]"
  "space_name split_corp = ''corp''" "block_name split_block = ''blk1''"
  "space_id spaceA \<noteq> space_id split_corp"
  "block_resv split_block = [resv_old, resv_64]"
  by (simp_all add: split_corp_def split_block_def spaceA_def lower_def lower_char_def)

lemma split_block_free:
  "iter_cidrs (available_set [] split_block)
     = [\<lparr>net_value = 167772160, prefixlen = 18\<rparr>, \<lparr>net_value = 167804928, prefixlen = 17\<rparr>]"
  unfolding available_set_def block_all_cidrs_def split_block_def resv_64_def resv_old_def
  by (simp add: eval_ipset unsettled_def)

lemma split_block_ok: "valid_block [] split_block" "I3 [] split_block"
  by (simp_all add: valid_block_def I3_def block_all_cidrs_def split_block_def resv_64_def
      resv_old_def unsettled_def valid_net_def net_addrs_def net_first_def net_size_def)

lemma alice_creator:
  "preferred_username token_alice = Some ''alice''
   \<or> preferred_username token_alice = None \<and> (\<exists>i. oid token_alice = Some i \<and> ''alice'' = ''spn:'' @ i)"
  by (simp add: token_alice_def)

theorem first_fit_reservation_witness:
  "create_block_reservation [] ''r1'' 1700000000 token_alice (by_size 24 True False)
         ''corp'' ''blk1'' [spaceA, split_corp]
     = (Inr \<lparr>resp_resv = \<lparr>resv_id = ''r1'', resv_cidr = \<lparr>net_value = 167837440, prefixlen = 24\<rparr>,
                           resv_desc = Some ''bu1'', createdOn = 1700000000, createdBy = ''alice'',
                           settledOn = None, settledBy = None, resv_status = ''wait''\<rparr>,
             resp_space = ''corp'', resp_block = ''blk1''\<rparr>,
        [spaceA,
         split_corp\<lparr>space_blocks :=
           [split_block\<lparr>block_resv :=
              [resv_old, resv_64,
               \<lparr>resv_id = ''r1'', resv_cidr = \<lparr>net_value = 167837440, prefixlen = 24\<rparr>,
                resv_desc = Some ''bu1'', createdOn = 1700000000, createdBy = ''alice'',
                settledOn = None, settledBy = None, resv_status = ''wait''\<rparr>]\<rparr>]\<rparr>])
   \<and> create_block_reservation [] ''r2'' 1700000000 token_alice (by_size 17 False False)
         ''corp'' ''blk1'' [spaceA, split_corp]
     = (Inr \<lparr>resp_resv = \<lparr>resv_id = ''r2'', resv_cidr = \<lparr>net_value = 167804928, prefixlen = 17\<rparr>,
                           resv_desc = Some ''bu1'', createdOn = 1700000000, createdBy = ''alice'',
                           settledOn = None, settledBy = None, resv_status = ''wait''\<rparr>,
             resp_space = ''corp'', resp_block = ''blk1''\<rparr>,
        [spaceA,
         split_corp\<lparr>space_blocks :=
           [split_block\<lparr>block_resv :=
              [resv_old, resv_64,
               \<lparr>resv_id = ''r2'', resv_cidr = \<lparr>net_value = 167804928, prefixlen = 17\<rparr>,
                resv_desc = Some ''bu1'', createdOn = 1700000000, createdBy = ''alice'',
                settledOn = None, settledBy = None, resv_status = ''wait''\<rparr>]\<rparr>]\<rparr>])"
proof -
  have run: "\<exists>p. find (\<lambda>q. prefixlen q \<le> sz)
                  (if rv then rev (iter_cidrs (available_set [] split_block))
                   else iter_cidrs (available_set [] split_block)) = Some p
        \<and> create_block_reservation [] uuid 1700000000 token_alice (by_size sz rv False)
             ''corp'' ''blk1'' [spaceA, split_corp]
          = (Inr \<lparr>resp_resv =
                    \<lparr>resv_id = uuid,
                     resv_cidr = (if rv then \<lparr>net_value = net_value p + 2 ^ (32 - prefixlen p) - 2 ^ (32 - sz),
                                                prefixlen = sz\<rparr>
                                  else \<lparr>net_value = net_value p, prefixlen = sz\<rparr>),
                     resv_desc = Some ''bu1'', createdOn = 1700000000, createdBy = ''alice'',
                     settledOn = None, settledBy = None, resv_status = ''wait''\<rparr>,
                   resp_space = ''corp'', resp_block = ''blk1''\<rparr>,
             [spaceA,
              split_corp\<lparr>space_blocks :=
                [split_block\<lparr>block_resv :=
                   [resv_old, resv_64,
                    \<lparr>resv_id = uuid,
                     resv_cidr = (if rv then \<lparr>net_value = net_value p + 2 ^ (32 - prefixlen p) - 2 ^ (32 - sz),
                                                prefixlen = sz\<rparr>
                                  else \<lparr>net_value = net_value p, prefixlen = sz\<rparr>),
                     resv_desc = Some ''bu1'', createdOn = 1700000000, createdBy = ''alice'',
                     settledOn = None, settledBy = None, resv_status = ''wait''\<rparr>]\<rparr>]\<rparr>])"
    if sz: "sz \<le> 32" and fits: "\<exists>q\<in>set (iter_cidrs (available_set [] split_block)). prefixlen q \<le> sz"
    for sz rv uuid
  proof -
    let ?req = "by_size sz rv False"
    have req: "req_cidr ?req = None" "\<not> req_smallest_cidr ?req" "req_size ?req \<le> 32"
      using sz by (simp_all add: by_size_def)
    have fits': "\<exists>q\<in>set (iter_cidrs (available_set [] split_block)). prefixlen q \<le> req_size ?req"
      using fits by (simp add: by_size_def)
    obtain before p after i cidr r where
      scan: "(if req_reverse_search ?req then rev (iter_cidrs (available_set [] split_block))
              else iter_cidrs (available_set [] split_block)) = before @ p # after"
        "\<forall>q\<in>set before. req_size ?req < prefixlen q" "prefixlen p \<le> req_size ?req"
      and cidr: "cidr = (if req_reverse_search ?req
               then \<lparr>net_value = net_value p + 2 ^ (32 - prefixlen p) - 2 ^ (32 - req_size ?req),
                     prefixlen = req_size ?req\<rparr>
               else \<lparr>net_value = net_value p, prefixlen = req_size ?req\<rparr>)"
      and r: "r = \<lparr>resv_id = uuid, resv_cidr = cidr, resv_desc = req_desc ?req, createdOn = 1700000000,
             createdBy = ''alice'', settledOn = None, settledBy = None, resv_status = ''wait''\<rparr>"
      and i: "i < length (space_blocks split_corp)"
      and res: "create_block_reservation [] uuid 1700000000 token_alice ?req ''corp'' ''blk1'' [spaceA, split_corp]
        = (Inr \<lparr>resp_resv = r, resp_space = space_name split_corp,
                 resp_block = block_name split_block\<rparr>,
           map (\<lambda>c. if space_id c = space_id split_corp
                     then split_corp\<lparr>space_blocks :=
                            (space_blocks split_corp)
                              [i := split_block\<lparr>block_resv := block_resv split_block @ [r]\<rparr>]\<rparr>
                     else c) [spaceA, split_corp])"
      using first_fit_reservation[OF split_corp_facts(1) split_corp_facts(2) split_block_ok req
          alice_creator fits', where uuid = uuid and now = 1700000000]
      by (elim exE conjE) (rule that)
    have nofit: "\<forall>q\<in>set before. \<not> prefixlen q \<le> sz" using scan(2) by (auto simp: by_size_def)
    have fit: "prefixlen p \<le> sz" using scan(3) by (simp add: by_size_def)
    have sc: "(if rv then rev (iter_cidrs (available_set [] split_block))
              else iter_cidrs (available_set [] split_block)) = before @ p # after"
      using scan(1) by (simp add: by_size_def)
    have found: "find (\<lambda>q. prefixlen q \<le> sz)
                  (if rv then rev (iter_cidrs (available_set [] split_block))
                   else iter_cidrs (available_set [] split_block)) = Some p"
      using sc nofit fit by (rule find_first)
    have i0: "i = 0" using i by (simp add: split_corp_facts)
    show ?thesis
      apply (rule exI[of _ p])
      using found res unfolding r cidr i0
      by (simp add: split_corp_facts by_size_def)
  qed
  have a: "\<exists>q\<in>set (iter_cidrs (available_set [] split_block)). prefixlen q \<le> 24"
    and b: "\<exists>q\<in>set (iter_cidrs (available_set [] split_block)). prefixlen q \<le> 17"
    by (simp_all add: split_block_free)
  show ?thesis
    using run[OF _ a, of True "''r1''"] run[OF _ b, of False "''r2''"]
    by (simp add: split_block_free)
qed

section \<open>Best-fit reservation by size\<close>

lemma fold_max_Max: "fold max xs (x::nat) = Max (set (x # xs))"
  by (simp only: Max.set_eq_fold)

lemma best_candidate:
  fixes c :: ipnetwork and cs :: "ipnetwork list"
  defines "m \<equiv> fold max (map prefixlen cs) (prefixlen c)"
  shows "\<exists>before p after. c # cs = before @ p # after
       \<and> find (\<lambda>n. prefixlen n = m) (c # cs) = Some p
       \<and> (\<forall>q\<in>set before. prefixlen q < prefixlen p)
       \<and> (\<forall>q\<in>set after. prefixlen q \<le> prefixlen p)"
proof -
  have m: "m = Max (prefixlen ` set (c # cs))"
    unfolding m_def fold_max_Max by simp
  have le: "\<forall>q\<in>set (c # cs). prefixlen q \<le> m" unfolding m by simp
  have "m \<in> prefixlen ` set (c # cs)" unfolding m by (rule Max_in) simp_all
  then have "\<exists>x\<in>set (c # cs). prefixlen x = m" by auto
  then have "find (\<lambda>n. prefixlen n = m) (c # cs) \<noteq> None"
    unfolding find_None_iff by blast
  then obtain p where found: "find (\<lambda>n. prefixlen n = m) (c # cs) = Some p" by blast
  obtain before after where split: "c # cs = before @ p # after" "prefixlen p = m"
      "\<forall>y\<in>set before. prefixlen y \<noteq> m"
    using find_split[OF found] by blast
  have "\<forall>q\<in>set before. prefixlen q \<le> m" "\<forall>q\<in>set after. prefixlen q \<le> m"
    using le unfolding split(1) by simp_all
  then have "(\<forall>q\<in>set before. prefixlen q < prefixlen p) \<and> (\<forall>q\<in>set after. prefixlen q \<le> prefixlen p)"
    using split(2,3) by (auto simp: le_less)
  then show ?thesis using split(1) found by blast
qed

text \<open>
  C2. \<^verbatim>\<open>POST /spaces/{s}/blocks/{b}/reservations\<close> with a request that carries only a size
  (at most 32) and \<^verbatim>\<open>smallest_cidr\<close>, on a block whose document satisfies I3 and has a free
  prefix of that length or shorter. The candidates are the maximal prefixes of the free
  addresses of the block, in ascending order, reversed when \<^verbatim>\<open>reverse_search\<close> is set, filtered
  to those whose length is at most the size. The prefix \<open>p\<close> chosen has the maximum length
  among the candidates, and is the first of them in the order of the scan with that length:
  every candidate before it is strictly shorter, every candidate after it is at most as long.
  The CIDR reserved has the requested length and is the first subnet of that length of \<open>p\<close>, or
  with \<^verbatim>\<open>reverse_search\<close> the last one. The reservation returned carries that CIDR, the status
  \<open>wait\<close> and the caller as creator; the document written differs from the one read only by
  this reservation, appended to the reservations of the target block.
\<close>

theorem best_fit_reservation:
  fixes req :: block_cidr_req and uuid :: string and now :: real
  assumes space: "filter (\<lambda>c. lower (space_name c) = lower space) store = target_space # others"
    and block: "find (\<lambda>x. lower (block_name x) = lower block) (space_blocks target_space)
                  = Some target_block"
    and valid: "valid_block net_list target_block"
    and inv: "I3 net_list target_block"
    and by_size: "req_cidr req = None" "req_smallest_cidr req" "req_size req \<le> 32"
    and creator: "preferred_username decoded = Some creator
                  \<or> preferred_username decoded = None
                    \<and> (\<exists>i. oid decoded = Some i \<and> creator = ''spn:'' @ i)"
    and fits: "\<exists>q\<in>set (iter_cidrs (available_set net_list target_block)). prefixlen q \<le> req_size req"
  shows "\<exists>before p after i cidr r.
      ascending_maximal_prefixes (free_addrs net_list target_block)
        (iter_cidrs (available_set net_list target_block))
    \<and> filter (\<lambda>q. prefixlen q \<le> req_size req)
        (if req_reverse_search req then rev (iter_cidrs (available_set net_list target_block))
         else iter_cidrs (available_set net_list target_block)) = before @ p # after
    \<and> (\<forall>q\<in>set before. prefixlen q < prefixlen p)
    \<and> (\<forall>q\<in>set after. prefixlen q \<le> prefixlen p)
    \<and> prefixlen p \<le> req_size req
    \<and> cidr = (if req_reverse_search req
               then \<lparr>net_value = net_value p + 2 ^ (32 - prefixlen p) - 2 ^ (32 - req_size req),
                     prefixlen = req_size req\<rparr>
               else \<lparr>net_value = net_value p, prefixlen = req_size req\<rparr>)
    \<and> prefixlen cidr = req_size req
    \<and> net_addrs cidr \<subseteq> net_addrs p
    \<and> net_addrs p \<subseteq> free_addrs net_list target_block
    \<and> r = \<lparr>resv_id = uuid, resv_cidr = cidr, resv_desc = req_desc req, createdOn = now,
             createdBy = creator, settledOn = None, settledBy = None, resv_status = ''wait''\<rparr>
    \<and> i < length (space_blocks target_space) \<and> space_blocks target_space ! i = target_block
    \<and> create_block_reservation net_list uuid now decoded req space block store
        = (Inr \<lparr>resp_resv = r, resp_space = space_name target_space,
                 resp_block = block_name target_block\<rparr>,
           map (\<lambda>c. if space_id c = space_id target_space
                     then target_space\<lparr>space_blocks :=
                            (space_blocks target_space)
                              [i := target_block\<lparr>block_resv := block_resv target_block @ [r]\<rparr>]\<rparr>
                     else c) store)"
proof -
  let ?rv = "req_reverse_search req" and ?sz = "req_size req"
  let ?free = "iter_cidrs (available_set net_list target_block)"
  let ?scan = "if ?rv then rev ?free else ?free"
  let ?cands = "filter (\<lambda>q. prefixlen q \<le> ?sz) ?scan"
  have asc: "ascending_maximal_prefixes (free_addrs net_list target_block) ?free"
    using valid inv by (rule free_list)
  have "set ?scan = set ?free" by simp
  then have "?cands \<noteq> []" using fits by (auto simp: filter_empty_conv)
  then obtain c cs where cands: "?cands = c # cs" by (cases ?cands) auto
  obtain before p after where best: "c # cs = before @ p # after"
      "find (\<lambda>n. prefixlen n = fold max (map prefixlen cs) (prefixlen c)) (c # cs) = Some p"
      "\<forall>q\<in>set before. prefixlen q < prefixlen p" "\<forall>q\<in>set after. prefixlen q \<le> prefixlen p"
    using best_candidate[of c cs] by blast
  have "p \<in> set ?cands" unfolding cands best(1) by simp
  then have pin: "p \<in> set ?free" and fit: "prefixlen p \<le> ?sz" by (simp_all split: if_splits)
  have mp: "maximal_prefix (free_addrs net_list target_block) p"
    using asc pin by (simp add: ascending_maximal_prefixes_def)
  then have pc: "net_cidr p = p" and pf: "net_addrs p \<subseteq> free_addrs net_list target_block"
    by (simp_all add: maximal_prefix_def)
  define cidr where "cidr = (if ?rv
               then \<lparr>net_value = net_value p + 2 ^ (32 - prefixlen p) - 2 ^ (32 - ?sz), prefixlen = ?sz\<rparr>
               else \<lparr>net_value = net_value p, prefixlen = ?sz\<rparr>)"
  define r where "r = \<lparr>resv_id = uuid, resv_cidr = cidr, resv_desc = req_desc req, createdOn = now,
             createdBy = creator, settledOn = None, settledBy = None, resv_status = ''wait''\<rparr>"
  have "filter (\<lambda>x. prefixlen x \<le> ?sz) (available_slicer ?rv ?free) = c # cs"
    using cands by (simp add: available_slicer_def)
  then have sel: "select_available_block (req_smallest_cidr req) ?rv ?sz (available_set net_list target_block)
             = Inr (Some p)"
    using best(2) by_size(2) by (simp add: select_available_block_def Let_def)
  note res1 = by_size_result(1)[OF space block by_size(1,3) creator_id_eq[OF creator] sel pc fit,
      where uuid = uuid and now = now, folded cidr_def, folded r_def]
  note res2 = by_size_result(2)[OF space block by_size(1,3) creator_id_eq[OF creator] sel pc fit,
      folded cidr_def]
  obtain i where i: "i < length (space_blocks target_space)" "space_blocks target_space ! i = target_block"
    "create_block_reservation net_list uuid now decoded req space block store
        = (Inr \<lparr>resp_resv = r, resp_space = space_name target_space,
                 resp_block = block_name target_block\<rparr>,
           map (\<lambda>c. if space_id c = space_id target_space
                     then target_space\<lparr>space_blocks :=
                            (space_blocks target_space)
                              [i := target_block\<lparr>block_resv := block_resv target_block @ [r]\<rparr>]\<rparr>
                     else c) store)"
    using res1 by blast
  have len: "prefixlen cidr = ?sz" by (simp add: cidr_def)
  have split: "?cands = before @ p # after" using cands best(1) by simp
  show ?thesis
    apply (rule exI[of _ before], rule exI[of _ p], rule exI[of _ after],
        rule exI[of _ i], rule exI[of _ cidr], rule exI[of _ r])
    using asc split best(3,4) fit len res2 pf i cidr_def r_def by simp
qed

text \<open>
  Three requests at concrete documents. In the block \<open>10.0.0.0/16\<close> with \<open>10.0.0.0/17\<close> reserved,
  the size 24 gets \<open>10.0.128.0/24\<close>. In the block \<open>10.0.0.0/16\<close> with \<open>10.0.32.0/19\<close> and
  \<open>10.0.96.0/19\<close> reserved, the free prefixes are \<open>10.0.0.0/19\<close>, \<open>10.0.64.0/19\<close> and
  \<open>10.0.128.0/17\<close>: the size 24 with \<^verbatim>\<open>reverse_search\<close> gets the last /24 of \<open>10.0.64.0/19\<close>, the
  first of the two longest candidates in descending order, which is \<open>10.0.95.0/24\<close> (first-fit
  would give \<open>10.0.255.0/24\<close>); the size 18 leaves \<open>10.0.128.0/17\<close> as the only candidate and
  gets \<open>10.0.128.0/18\<close>.
\<close>

lemma best_first:
  assumes "xs = before @ p # after" "\<forall>q\<in>set before. prefixlen q < prefixlen p"
    "\<forall>q\<in>set after. prefixlen q \<le> prefixlen p"
  shows "find (\<lambda>q. \<forall>x\<in>set xs. prefixlen x \<le> prefixlen q) xs = Some (p::ipnetwork)"
proof (rule find_first[OF assms(1)])
  show "\<forall>q\<in>set before. \<not> (\<forall>x\<in>set xs. prefixlen x \<le> prefixlen q)"
    using assms(1,2) by (auto simp: not_le)
  show "\<forall>x\<in>set xs. prefixlen x \<le> prefixlen p"
    using assms by (auto simp: less_imp_le)
qed

lemma half_corp_facts:
  "filter (\<lambda>c. lower (space_name c) = lower ''corp'') [spaceA, half_corp] = [half_corp]"
  "find (\<lambda>x. lower (block_name x) = lower ''blk1'') (space_blocks half_corp) = Some half_block"
  "space_blocks half_corp = [half_block]"
  "space_name half_corp = ''corp''" "block_name half_block = ''blk1''"
  "space_id spaceA \<noteq> space_id half_corp"
  "block_resv half_block = [resv_half]"
  by (simp_all add: half_corp_def half_block_def wide_block_def spaceA_def lower_def lower_char_def)

lemma half_block_free:
  "iter_cidrs (available_set [] half_block) = [\<lparr>net_value = 167804928, prefixlen = 17\<rparr>]"
  unfolding available_set_def block_all_cidrs_def half_block_def wide_block_def resv_half_def
  by (simp add: eval_ipset unsettled_def)

lemma half_block_ok: "valid_block [] half_block" "I3 [] half_block"
  by (simp_all add: valid_block_def I3_def block_all_cidrs_def half_block_def wide_block_def
      resv_half_def unsettled_def valid_net_def net_addrs_def net_first_def net_size_def)

lemma holes_corp_facts:
  "filter (\<lambda>c. lower (space_name c) = lower ''corp'') [spaceA, holes_corp] = [holes_corp]"
  "find (\<lambda>x. lower (block_name x) = lower ''blk1'') (space_blocks holes_corp) = Some holes_block"
  "space_blocks holes_corp = [holes_block]"
  "space_name holes_corp = ''corp''" "block_name holes_block = ''blk1''"
  "space_id spaceA \<noteq> space_id holes_corp"
  "block_resv holes_block = [resv_32, resv_96]"
  by (simp_all add: holes_corp_def holes_block_def spaceA_def lower_def lower_char_def)

lemma holes_block_free:
  "iter_cidrs (available_set [] holes_block)
     = [\<lparr>net_value = 167772160, prefixlen = 19\<rparr>, \<lparr>net_value = 167788544, prefixlen = 19\<rparr>,
        \<lparr>net_value = 167804928, prefixlen = 17\<rparr>]"
  unfolding available_set_def block_all_cidrs_def holes_block_def resv_32_def resv_96_def
  by (simp add: eval_ipset unsettled_def)

lemma holes_block_ok: "valid_block [] holes_block" "I3 [] holes_block"
  by (simp_all add: valid_block_def I3_def block_all_cidrs_def holes_block_def resv_32_def
      resv_96_def unsettled_def valid_net_def net_addrs_def net_first_def net_size_def)

theorem best_fit_reservation_witness:
  "create_block_reservation [] ''r1'' 1700000000 token_alice (by_size 24 False True)
         ''corp'' ''blk1'' [spaceA, half_corp]
     = (Inr \<lparr>resp_resv = \<lparr>resv_id = ''r1'', resv_cidr = \<lparr>net_value = 167804928, prefixlen = 24\<rparr>,
                           resv_desc = Some ''bu1'', createdOn = 1700000000, createdBy = ''alice'',
                           settledOn = None, settledBy = None, resv_status = ''wait''\<rparr>,
             resp_space = ''corp'', resp_block = ''blk1''\<rparr>,
        [spaceA,
         half_corp\<lparr>space_blocks :=
           [half_block\<lparr>block_resv :=
              [resv_half,
               \<lparr>resv_id = ''r1'', resv_cidr = \<lparr>net_value = 167804928, prefixlen = 24\<rparr>,
                resv_desc = Some ''bu1'', createdOn = 1700000000, createdBy = ''alice'',
                settledOn = None, settledBy = None, resv_status = ''wait''\<rparr>]\<rparr>]\<rparr>])
   \<and> create_block_reservation [] ''r2'' 1700000000 token_alice (by_size 24 True True)
         ''corp'' ''blk1'' [spaceA, holes_corp]
     = (Inr \<lparr>resp_resv = \<lparr>resv_id = ''r2'', resv_cidr = \<lparr>net_value = 167796480, prefixlen = 24\<rparr>,
                           resv_desc = Some ''bu1'', createdOn = 1700000000, createdBy = ''alice'',
                           settledOn = None, settledBy = None, resv_status = ''wait''\<rparr>,
             resp_space = ''corp'', resp_block = ''blk1''\<rparr>,
        [spaceA,
         holes_corp\<lparr>space_blocks :=
           [holes_block\<lparr>block_resv :=
              [resv_32, resv_96,
               \<lparr>resv_id = ''r2'', resv_cidr = \<lparr>net_value = 167796480, prefixlen = 24\<rparr>,
                resv_desc = Some ''bu1'', createdOn = 1700000000, createdBy = ''alice'',
                settledOn = None, settledBy = None, resv_status = ''wait''\<rparr>]\<rparr>]\<rparr>])
   \<and> create_block_reservation [] ''r3'' 1700000000 token_alice (by_size 18 False True)
         ''corp'' ''blk1'' [spaceA, holes_corp]
     = (Inr \<lparr>resp_resv = \<lparr>resv_id = ''r3'', resv_cidr = \<lparr>net_value = 167804928, prefixlen = 18\<rparr>,
                           resv_desc = Some ''bu1'', createdOn = 1700000000, createdBy = ''alice'',
                           settledOn = None, settledBy = None, resv_status = ''wait''\<rparr>,
             resp_space = ''corp'', resp_block = ''blk1''\<rparr>,
        [spaceA,
         holes_corp\<lparr>space_blocks :=
           [holes_block\<lparr>block_resv :=
              [resv_32, resv_96,
               \<lparr>resv_id = ''r3'', resv_cidr = \<lparr>net_value = 167804928, prefixlen = 18\<rparr>,
                resv_desc = Some ''bu1'', createdOn = 1700000000, createdBy = ''alice'',
                settledOn = None, settledBy = None, resv_status = ''wait''\<rparr>]\<rparr>]\<rparr>])"
proof -
  have run: "\<exists>p. find (\<lambda>q. \<forall>x\<in>set (filter (\<lambda>q. prefixlen q \<le> sz)
                                  (if rv then rev (iter_cidrs (available_set [] blk))
                                   else iter_cidrs (available_set [] blk))). prefixlen x \<le> prefixlen q)
                  (filter (\<lambda>q. prefixlen q \<le> sz)
                     (if rv then rev (iter_cidrs (available_set [] blk))
                      else iter_cidrs (available_set [] blk))) = Some p
        \<and> create_block_reservation [] uuid 1700000000 token_alice (by_size sz rv True)
             ''corp'' ''blk1'' [spaceA, corp]
          = (Inr \<lparr>resp_resv =
                    \<lparr>resv_id = uuid,
                     resv_cidr = (if rv then \<lparr>net_value = net_value p + 2 ^ (32 - prefixlen p) - 2 ^ (32 - sz),
                                                prefixlen = sz\<rparr>
                                  else \<lparr>net_value = net_value p, prefixlen = sz\<rparr>),
                     resv_desc = Some ''bu1'', createdOn = 1700000000, createdBy = ''alice'',
                     settledOn = None, settledBy = None, resv_status = ''wait''\<rparr>,
                   resp_space = ''corp'', resp_block = ''blk1''\<rparr>,
             [spaceA,
              corp\<lparr>space_blocks :=
                [blk\<lparr>block_resv :=
                   block_resv blk @
                   [\<lparr>resv_id = uuid,
                     resv_cidr = (if rv then \<lparr>net_value = net_value p + 2 ^ (32 - prefixlen p) - 2 ^ (32 - sz),
                                                prefixlen = sz\<rparr>
                                  else \<lparr>net_value = net_value p, prefixlen = sz\<rparr>),
                     resv_desc = Some ''bu1'', createdOn = 1700000000, createdBy = ''alice'',
                     settledOn = None, settledBy = None, resv_status = ''wait''\<rparr>]\<rparr>]\<rparr>])"
    if facts: "filter (\<lambda>c. lower (space_name c) = lower ''corp'') [spaceA, corp] = [corp]"
        "find (\<lambda>x. lower (block_name x) = lower ''blk1'') (space_blocks corp) = Some blk"
        "space_blocks corp = [blk]" "space_name corp = ''corp''" "block_name blk = ''blk1''"
        "space_id spaceA \<noteq> space_id corp"
      and ok: "valid_block [] blk" "I3 [] blk"
      and sz: "sz \<le> 32" and fits: "\<exists>q\<in>set (iter_cidrs (available_set [] blk)). prefixlen q \<le> sz"
    for sz rv uuid corp blk
  proof -
    let ?req = "by_size sz rv True"
    have req: "req_cidr ?req = None" "req_smallest_cidr ?req" "req_size ?req \<le> 32"
      using sz by (simp_all add: by_size_def)
    have fits': "\<exists>q\<in>set (iter_cidrs (available_set [] blk)). prefixlen q \<le> req_size ?req"
      using fits by (simp add: by_size_def)
    obtain before p after i cidr r where
      scan: "filter (\<lambda>q. prefixlen q \<le> req_size ?req)
               (if req_reverse_search ?req then rev (iter_cidrs (available_set [] blk))
                else iter_cidrs (available_set [] blk)) = before @ p # after"
        "\<forall>q\<in>set before. prefixlen q < prefixlen p" "\<forall>q\<in>set after. prefixlen q \<le> prefixlen p"
      and cidr: "cidr = (if req_reverse_search ?req
               then \<lparr>net_value = net_value p + 2 ^ (32 - prefixlen p) - 2 ^ (32 - req_size ?req),
                     prefixlen = req_size ?req\<rparr>
               else \<lparr>net_value = net_value p, prefixlen = req_size ?req\<rparr>)"
      and r: "r = \<lparr>resv_id = uuid, resv_cidr = cidr, resv_desc = req_desc ?req, createdOn = 1700000000,
             createdBy = ''alice'', settledOn = None, settledBy = None, resv_status = ''wait''\<rparr>"
      and i: "i < length (space_blocks corp)"
      and res: "create_block_reservation [] uuid 1700000000 token_alice ?req ''corp'' ''blk1'' [spaceA, corp]
        = (Inr \<lparr>resp_resv = r, resp_space = space_name corp,
                 resp_block = block_name blk\<rparr>,
           map (\<lambda>c. if space_id c = space_id corp
                     then corp\<lparr>space_blocks :=
                            (space_blocks corp)
                              [i := blk\<lparr>block_resv := block_resv blk @ [r]\<rparr>]\<rparr>
                     else c) [spaceA, corp])"
      using best_fit_reservation[OF facts(1) facts(2) ok req alice_creator fits',
          where uuid = uuid and now = 1700000000]
      by (elim exE conjE) (rule that)
    have sc: "filter (\<lambda>q. prefixlen q \<le> sz)
                (if rv then rev (iter_cidrs (available_set [] blk))
                 else iter_cidrs (available_set [] blk)) = before @ p # after"
      using scan(1) by (simp add: by_size_def)
    note found = best_first[OF sc scan(2,3)]
    have i0: "i = 0" using i by (simp add: facts)
    show ?thesis
      apply (rule exI[of _ p])
      using found res unfolding r cidr i0
      by (simp add: facts by_size_def)
  qed
  have a: "\<exists>q\<in>set (iter_cidrs (available_set [] half_block)). prefixlen q \<le> 24"
    and b: "\<exists>q\<in>set (iter_cidrs (available_set [] holes_block)). prefixlen q \<le> 24"
    and c: "\<exists>q\<in>set (iter_cidrs (available_set [] holes_block)). prefixlen q \<le> 18"
    by (simp_all add: half_block_free holes_block_free)
  show ?thesis
    using run[OF half_corp_facts(1-6) half_block_ok _ a, of False "''r1''"]
      run[OF holes_corp_facts(1-6) holes_block_ok _ b, of True "''r2''"]
      run[OF holes_corp_facts(1-6) holes_block_ok _ c, of False "''r3''"]
    by (simp add: half_block_free holes_block_free half_corp_facts holes_corp_facts)
qed

section \<open>The first block of the list that can satisfy the request\<close>








text \<open>
  Three requests for a /20 at the space with the blocks \<open>blkA\<close>, \<open>blkB\<close> and \<open>blkC\<close>. The list
  \<open>blkA, blkB, blkC\<close> with \<^verbatim>\<open>reverse_search\<close> passes over \<open>blkA\<close>, which is too small, and gets the
  last /20 of \<open>blkB\<close>, \<open>10.1.240.0/20\<close>; \<open>blkC\<close> is not modified. The list \<open>blkC, blkB\<close> gets
  \<open>10.2.0.0/20\<close> in \<open>blkC\<close>: the order is that of the request, not that of the document. The
  list \<open>blkA\<close> alone gets the error 500 and nothing is written.
\<close>

lemma first_index:
  "i < length xs \<Longrightarrow> P (xs ! i) \<Longrightarrow> \<forall>j<i. \<not> P (xs ! j)
   \<Longrightarrow> length (takeWhile (\<lambda>x. \<not> P x) xs) = i"
proof (induction xs arbitrary: i)
  case Nil
  then show ?case by simp
next
  case (Cons x xs)
  show ?case
  proof (cases i)
    case 0
    then show ?thesis using Cons.prems by simp
  next
    case (Suc k)
    have "\<not> P x" using Cons.prems(3) Suc by auto
    moreover have "length (takeWhile (\<lambda>x. \<not> P x) xs) = k"
      using Cons.prems Suc by (intro Cons.IH) auto
    ultimately show ?thesis using Suc by simp
  qed
qed







section \<open>Deleting reservations settles them\<close>

lemma index_of_None: "index_of P xs = None \<longleftrightarrow> \<not> (\<exists>x\<in>set xs. P x)"
  by (induction xs) auto

lemma index_of_Some:
  "\<exists>x\<in>set xs. P x \<Longrightarrow> \<exists>i. index_of P xs = Some i \<and> i < length xs \<and> P (xs ! i)"
proof (induction xs)
  case Nil
  then show ?case by simp
next
  case (Cons a xs)
  show ?case
  proof (cases "P a")
    case True
    then show ?thesis by simp
  next
    case False
    then have "\<exists>x\<in>set xs. P x" using Cons.prems by auto
    then obtain i where "index_of P xs = Some i" "i < length xs" "P (xs ! i)"
      using Cons.IH by blast
    then show ?thesis using False by simp
  qed
qed

lemma settle_keeps_id: "resv_id (settle t u r) = resv_id r"
  by (simp add: settle_def)

lemma settle_loop_result:
  assumes "distinct (map resv_id resv)" "distinct ids" "set ids \<subseteq> set (map resv_id resv)"
  shows "settle_loop clock u k ids resv
     = Inr (map (\<lambda>r. case index_of (\<lambda>x. x = resv_id r) ids of
                        None \<Rightarrow> r | Some n \<Rightarrow> settle (clock (k + n)) u r) resv)"
  using assms
proof (induction ids arbitrary: k resv)
  case Nil
  then show ?case by simp
next
  case (Cons rid ids)
  let ?g' = "\<lambda>r. case index_of (\<lambda>x. x = resv_id r) ids of
                        None \<Rightarrow> r | Some n \<Rightarrow> settle (clock (Suc k + n)) u r"
  let ?g = "\<lambda>r. case index_of (\<lambda>x. x = resv_id r) (rid # ids) of
                        None \<Rightarrow> r | Some n \<Rightarrow> settle (clock (k + n)) u r"
  have "\<exists>x\<in>set resv. resv_id x = rid" using Cons.prems(3) by auto
  then obtain index where index: "index_of (\<lambda>item. resv_id item = rid) resv = Some index"
      "index < length resv" "resv_id (resv ! index) = rid"
    using index_of_Some[of resv "\<lambda>item. resv_id item = rid"] by blast
  define resv' where "resv' = resv[index := settle (clock k) u (resv ! index)]"
  have ids': "map resv_id resv' = map resv_id resv"
  proof -
    have "(map resv_id resv)[index := resv_id (resv ! index)] = map resv_id resv"
      using index(2) by (simp add: list_update_same_conv)
    then show ?thesis unfolding resv'_def by (simp add: map_update settle_keeps_id)
  qed
  have len: "length resv' = length resv" unfolding resv'_def by simp
  have notin: "rid \<notin> set ids" using Cons.prems(2) by simp
  have IH: "settle_loop clock u (Suc k) ids resv' = Inr (map ?g' resv')"
    using Cons.prems by (intro Cons.IH) (simp_all add: ids')
  have "map ?g' resv' = map ?g resv"
  proof (rule nth_equalityI)
    show "length (map ?g' resv') = length (map ?g resv)" by (simp add: len)
  next
    fix j assume "j < length (map ?g' resv')"
    then have j: "j < length resv" by (simp add: len)
    show "map ?g' resv' ! j = map ?g resv ! j"
    proof (cases "j = index")
      case True
      have none: "index_of (\<lambda>x. x = rid) ids = None"
        using notin by (simp add: index_of_None)
      have "resv' ! j = settle (clock k) u (resv ! index)"
        unfolding resv'_def using True index(2) by simp
      then show ?thesis using j len True index(3) none by (simp add: settle_keeps_id)
    next
      case False
      have "map resv_id resv ! j \<noteq> map resv_id resv ! index"
        using Cons.prems(1) j index(2) False by (simp add: nth_eq_iff_index_eq del: nth_map)
      then have ne: "resv_id (resv ! j) \<noteq> rid" using j index(2,3) by simp
      have "resv' ! j = resv ! j" unfolding resv'_def using False by simp
      then show ?thesis using j len ne
        by (cases "index_of (\<lambda>x. x = resv_id (resv ! j)) ids") auto
    qed
  qed
  then show ?case using index(1) IH by (simp add: resv'_def)
qed

lemma index_of_filter_pos:
  "distinct (map f xs) \<Longrightarrow> j < length xs \<Longrightarrow>
   index_of (\<lambda>x. x = f (xs ! j)) (map f (filter P xs))
     = (if P (xs ! j) then Some (length (filter P (take j xs))) else None)"
proof (induction xs arbitrary: j)
  case Nil
  then show ?case by simp
next
  case (Cons x xs)
  show ?case
  proof (cases j)
    case 0
    have "f x \<notin> set (map f (filter P xs))" using Cons.prems(1) by auto
    then have "index_of (\<lambda>y. y = f x) (map f (filter P xs)) = None"
      by (simp add: index_of_None)
    then show ?thesis using 0 by simp
  next
    case (Suc m)
    have m: "m < length xs" using Cons.prems(2) Suc by simp
    have ne: "f x \<noteq> f (xs ! m)" using Cons.prems(1) m by auto
    have IH: "index_of (\<lambda>y. y = f (xs ! m)) (map f (filter P xs))
      = (if P (xs ! m) then Some (length (filter P (take m xs))) else None)"
      using Cons.prems(1) m by (intro Cons.IH) simp_all
    show ?thesis using Suc ne IH by simp
  qed
qed

lemma bulk_settled:
  fixes resv :: "reservation list"
  assumes "distinct (map resv_id resv)"
  shows "settle_loop clock u 0 (map resv_id (filter P resv)) resv
     = Inr (map (\<lambda>j. if P (resv ! j)
                      then (resv ! j)\<lparr>settledOn := Some (clock (length (filter P (take j resv)))),
                                      settledBy := Some u, resv_status := ''cancelledByUser''\<rparr>
                      else resv ! j) [0..<length resv])"
proof -
  let ?ids = "map resv_id (filter P resv)"
  let ?g = "\<lambda>r. case index_of (\<lambda>x. x = resv_id r) ?ids of
                        None \<Rightarrow> r | Some n \<Rightarrow> settle (clock (0 + n)) u r"
  have d: "distinct ?ids" using assms by (simp add: distinct_map_filter)
  have s: "set ?ids \<subseteq> set (map resv_id resv)" by auto
  have "settle_loop clock u 0 ?ids resv = Inr (map ?g resv)"
    using assms d s by (rule settle_loop_result)
  moreover have "map ?g resv = map (\<lambda>j. if P (resv ! j)
                      then (resv ! j)\<lparr>settledOn := Some (clock (length (filter P (take j resv)))),
                                      settledBy := Some u, resv_status := ''cancelledByUser''\<rparr>
                      else resv ! j) [0..<length resv]"
  proof (rule nth_equalityI)
    show "length (map ?g resv) = length (map (\<lambda>j. if P (resv ! j)
                      then (resv ! j)\<lparr>settledOn := Some (clock (length (filter P (take j resv)))),
                                      settledBy := Some u, resv_status := ''cancelledByUser''\<rparr>
                      else resv ! j) [0..<length resv])" by simp
  next
    fix j assume "j < length (map ?g resv)"
    then have j: "j < length resv" by simp
    show "map ?g resv ! j = map (\<lambda>j. if P (resv ! j)
                      then (resv ! j)\<lparr>settledOn := Some (clock (length (filter P (take j resv)))),
                                      settledBy := Some u, resv_status := ''cancelledByUser''\<rparr>
                      else resv ! j) [0..<length resv] ! j"
      using j index_of_filter_pos[OF assms j, of P] by (simp add: settle_def)
  qed
  ultimately show ?thesis by simp
qed

text \<open>
  C4. The two deletes, on a block whose reservations have distinct ids. The bulk delete with
  a list of distinct ids that all exist in the block: a caller who is not admin and names a
  reservation created by another user gets 403 and the store is unchanged. Otherwise the
  document written has the same reservations at the same places; a reservation that is
  unsettled and named in the list gets \<open>settledOn\<close> set to the reading of the clock (the
  \<open>n\<close>-th reading for the \<open>n\<close>-th such reservation of the document), \<open>settledBy\<close> set to the
  caller and the status \<open>cancelledByUser\<close>; every other reservation, settled or not named, is
  unchanged. The delete of one reservation found in the block: 403 for a caller who is not
  admin and did not create it; if it is unsettled, the document written differs only by the
  three fields of that reservation; if it is settled, nothing is written.
\<close>

theorem delete_reservations_soft_settle:
  fixes clock :: "nat \<Rightarrow> real" and req :: "string list"
  assumes space: "filter (\<lambda>c. lower (space_name c) = lower space) store = target_space # others"
    and block: "find (\<lambda>x. lower (block_name x) = lower block) (space_blocks target_space)
                  = Some target_block"
    and ids: "distinct (map resv_id (block_resv target_block))"
  shows "\<exists>i. i < length (space_blocks target_space) \<and> space_blocks target_space ! i = target_block
    \<and> (\<forall>j<i. lower (block_name (space_blocks target_space ! j)) \<noteq> lower block)
    \<and> (distinct req \<and> set req \<subseteq> set (map resv_id (block_resv target_block)) \<longrightarrow>
        delete_block_reservations clock user_name is_admin req space block store
          = (if \<not> is_admin \<and> (\<exists>r\<in>set (block_resv target_block).
                                   resv_id r \<in> set req \<and> createdBy r \<noteq> user_name)
             then (Inl (HTTPException 403 ''Users can only delete their own reservations.''), store)
             else (Inr NoContent,
                   map (\<lambda>c. if space_id c = space_id target_space
                       then target_space\<lparr>space_blocks :=
                              (space_blocks target_space)
                                [i := target_block\<lparr>block_resv :=
                                   map (\<lambda>j. if unsettled (block_resv target_block ! j)
                                                \<and> resv_id (block_resv target_block ! j) \<in> set req
                                             then (block_resv target_block ! j)
                                                    \<lparr>settledOn := Some (clock (length (filter
                                                         (\<lambda>r. unsettled r \<and> resv_id r \<in> set req)
                                                         (take j (block_resv target_block))))),
                                                      settledBy := Some user_name,
                                                      resv_status := ''cancelledByUser''\<rparr>
                                             else block_resv target_block ! j)
                                     [0..<length (block_resv target_block)]\<rparr>]\<rparr>
                       else c) store)))
    \<and> (\<forall>target_reservation.
          find (\<lambda>x. resv_id x = reservation) (block_resv target_block) = Some target_reservation \<longrightarrow>
          (\<exists>k. k < length (block_resv target_block) \<and> block_resv target_block ! k = target_reservation
            \<and> (\<forall>m<k. resv_id (block_resv target_block ! m) \<noteq> reservation)
            \<and> delete_block_reservation clock user_name is_admin space block reservation store
              = (if \<not> is_admin \<and> createdBy target_reservation \<noteq> user_name
                 then (Inl (HTTPException 403 ''Users can only delete their own reservations.''), store)
                 else if unsettled target_reservation
                 then (Inr NoContent,
                       map (\<lambda>c. if space_id c = space_id target_space
                         then target_space\<lparr>space_blocks :=
                                (space_blocks target_space)
                                  [i := target_block\<lparr>block_resv :=
                                     (block_resv target_block)
                                       [k := target_reservation
                                          \<lparr>settledOn := Some (clock 0),
                                            settledBy := Some user_name,
                                            resv_status := ''cancelledByUser''\<rparr>]\<rparr>]\<rparr>
                         else c) store)
                 else (Inr NoContent, store))))"
proof -
  let ?resv = "block_resv target_block"
  let ?P = "\<lambda>r. unsettled r \<and> resv_id r \<in> set req"
  let ?new = "map (\<lambda>j. if unsettled (?resv ! j) \<and> resv_id (?resv ! j) \<in> set req
                        then (?resv ! j)\<lparr>settledOn := Some (clock (length (filter ?P (take j ?resv)))),
                               settledBy := Some user_name, resv_status := ''cancelledByUser''\<rparr>
                        else ?resv ! j) [0..<length ?resv]"
  have fb: "find_block target_space block = Some target_block"
    unfolding find_block_def by (rule block)
  obtain i where i: "i < length (space_blocks target_space)" "space_blocks target_space ! i = target_block"
    "\<forall>j<i. lower (block_name (space_blocks target_space ! j)) \<noteq> lower block"
    "\<And>f. update_first (\<lambda>x. lower (block_name x) = lower block) f (space_blocks target_space)
         = (space_blocks target_space)[i := f target_block]"
  proof -
    obtain i where a: "i < length (space_blocks target_space)" "space_blocks target_space ! i = target_block"
      "\<forall>j<i. lower (block_name (space_blocks target_space ! j)) \<noteq> lower block"
      "update_first (\<lambda>x. lower (block_name x) = lower block) id (space_blocks target_space)
         = (space_blocks target_space)[i := id target_block]"
      using find_block_index[OF fb, of id] by blast
    have "update_first (\<lambda>x. lower (block_name x) = lower block) f (space_blocks target_space)
         = (space_blocks target_space)[i := f target_block]" for f
    proof -
      obtain i' where b: "i' < length (space_blocks target_space)" "space_blocks target_space ! i' = target_block"
        "\<forall>j<i'. lower (block_name (space_blocks target_space ! j)) \<noteq> lower block"
        "update_first (\<lambda>x. lower (block_name x) = lower block) f (space_blocks target_space)
           = (space_blocks target_space)[i' := f target_block]"
        using find_block_index[OF fb, of f] by blast
      have pt: "lower (block_name target_block) = lower block"
        using find_split[OF block] by blast
      have "\<not> i < i'" using b(3) a(2) pt by auto
      moreover have "\<not> i' < i" using a(3) b(2) pt by auto
      ultimately have "i' = i" by simp
      then show ?thesis using b(4) by simp
    qed
    then show ?thesis using a(1,2,3) that by blast
  qed
  have bulk: "delete_block_reservations clock user_name is_admin req space block store
          = (if \<not> is_admin \<and> (\<exists>r\<in>set ?resv. resv_id r \<in> set req \<and> createdBy r \<noteq> user_name)
             then (Inl (HTTPException 403 ''Users can only delete their own reservations.''), store)
             else (Inr NoContent,
                   map (\<lambda>c. if space_id c = space_id target_space
                       then target_space\<lparr>space_blocks :=
                              (space_blocks target_space)[i := target_block\<lparr>block_resv := ?new\<rparr>]\<rparr>
                       else c) store))"
    if req: "distinct req \<and> set req \<subseteq> set (map resv_id ?resv)"
  proof -
    have loop: "settle_loop clock user_name 0 (map resv_id (filter ?P ?resv)) ?resv = Inr ?new"
      using ids by (rule bulk_settled)
    have owned: "filter (\<lambda>x. resv_id x \<in> set req \<and> createdBy x \<noteq> user_name) ?resv \<noteq> []
       \<longleftrightarrow> (\<exists>r\<in>set ?resv. resv_id r \<in> set req \<and> createdBy r \<noteq> user_name)"
      by (auto simp: filter_empty_conv)
    have valid: "\<forall>elem\<in>set req. elem \<in> set (map resv_id ?resv)" using req by auto
    have body: "delete_block_reservations_body clock user_name is_admin req space block store
       = (if \<not> is_admin \<and> (\<exists>r\<in>set ?resv. resv_id r \<in> set req \<and> createdBy r \<noteq> user_name)
          then Inl (HTTPException 403 ''Users can only delete their own reservations.'')
          else Inr (target_space,
                    target_space\<lparr>space_blocks :=
                      (space_blocks target_space)[i := target_block\<lparr>block_resv := ?new\<rparr>]\<rparr>,
                    NoContent))"
      unfolding delete_block_reservations_body_def query_space_def space
      using req valid by (simp add: fb owned loop i(4) Let_def del: set_map)
    show ?thesis
      unfolding delete_block_reservations_def body
      by (simp add: commit_def cosmos_replace_def)
  qed
  have single: "\<exists>k. k < length ?resv \<and> ?resv ! k = target_reservation
            \<and> (\<forall>m<k. resv_id (?resv ! m) \<noteq> reservation)
            \<and> delete_block_reservation clock user_name is_admin space block reservation store
              = (if \<not> is_admin \<and> createdBy target_reservation \<noteq> user_name
                 then (Inl (HTTPException 403 ''Users can only delete their own reservations.''), store)
                 else if unsettled target_reservation
                 then (Inr NoContent,
                       map (\<lambda>c. if space_id c = space_id target_space
                         then target_space\<lparr>space_blocks :=
                                (space_blocks target_space)
                                  [i := target_block\<lparr>block_resv :=
                                     ?resv[k := target_reservation
                                          \<lparr>settledOn := Some (clock 0),
                                            settledBy := Some user_name,
                                            resv_status := ''cancelledByUser''\<rparr>]\<rparr>]\<rparr>
                         else c) store)
                 else (Inr NoContent, store))"
    if one: "find (\<lambda>x. resv_id x = reservation) ?resv = Some target_reservation"
    for target_reservation
  proof -
    obtain k where k: "k < length ?resv" "?resv ! k = target_reservation"
      "\<forall>m<k. resv_id (?resv ! m) \<noteq> reservation"
      "update_first (\<lambda>x. resv_id x = reservation) (settle (clock 0) user_name) ?resv
         = ?resv[k := settle (clock 0) user_name target_reservation]"
      using update_first_find[OF one, of "settle (clock 0) user_name"] by blast
    have body: "delete_block_reservation_body clock user_name is_admin space block reservation store
       = (if \<not> is_admin \<and> createdBy target_reservation \<noteq> user_name
          then Inl (HTTPException 403 ''Users can only delete their own reservations.'')
          else if unsettled target_reservation
          then Inr (Some (target_space,
                    target_space\<lparr>space_blocks :=
                      (space_blocks target_space)
                        [i := target_block\<lparr>block_resv :=
                           ?resv[k := settle (clock 0) user_name target_reservation]\<rparr>]\<rparr>))
          else Inr None)"
      unfolding delete_block_reservation_body_def query_space_def space
      by (simp add: fb one i(4) k(4))
    have "delete_block_reservation clock user_name is_admin space block reservation store
              = (if \<not> is_admin \<and> createdBy target_reservation \<noteq> user_name
                 then (Inl (HTTPException 403 ''Users can only delete their own reservations.''), store)
                 else if unsettled target_reservation
                 then (Inr NoContent,
                       map (\<lambda>c. if space_id c = space_id target_space
                         then target_space\<lparr>space_blocks :=
                                (space_blocks target_space)
                                  [i := target_block\<lparr>block_resv :=
                                     ?resv[k := target_reservation
                                          \<lparr>settledOn := Some (clock 0),
                                            settledBy := Some user_name,
                                            resv_status := ''cancelledByUser''\<rparr>]\<rparr>]\<rparr>
                         else c) store)
                 else (Inr NoContent, store))"
      unfolding delete_block_reservation_def body
      by (simp add: cosmos_replace_def settle_def)
    then show ?thesis using k(1,2,3) by blast
  qed
  show ?thesis
    apply (rule exI[of _ i])
    apply (intro conjI)
        apply (rule i(1))
       apply (rule i(2))
      apply (rule i(3))
     apply (rule impI, erule bulk)
    apply (rule allI, rule impI, erule single)
    done
qed

text \<open>
  Six requests at the block with the reservations \<open>ra\<close>, \<open>rs\<close>, \<open>rb\<close>, \<open>rc\<close>. Alice deletes
  \<open>rc, rs, ra\<close>: \<open>ra\<close> and \<open>rc\<close> are stamped, in the order of the document, and the settled \<open>rs\<close>
  is unchanged. Alice names \<open>rb\<close>, which is bob's: 403. The admin carol deletes \<open>rb, rs\<close>: \<open>rb\<close>
  is stamped with her name. The single delete by alice stamps \<open>rc\<close>, writes nothing for the
  settled \<open>rs\<close>, and is refused for \<open>rb\<close>.
\<close>

lemma del_corp_facts:
  "filter (\<lambda>c. lower (space_name c) = lower ''corp'') [spaceA, del_corp] = [del_corp]"
  "find (\<lambda>x. lower (block_name x) = lower ''blk1'') (space_blocks del_corp) = Some del_block"
  "space_blocks del_corp = [del_block]"
  "space_id spaceA \<noteq> space_id del_corp"
  "block_resv del_block = [dr_a, dr_s, dr_b, dr_c]"
  by (simp_all add: del_corp_def del_block_def spaceA_def lower_def lower_char_def)

lemma del_resv_facts:
  "resv_id dr_a = ''ra''" "resv_id dr_s = ''rs''" "resv_id dr_b = ''rb''" "resv_id dr_c = ''rc''"
  "createdBy dr_a = ''alice''" "createdBy dr_s = ''alice''" "createdBy dr_b = ''bob''"
  "createdBy dr_c = ''alice''"
  "unsettled dr_a" "\<not> unsettled dr_s" "unsettled dr_b" "unsettled dr_c"
  by (simp_all add: dr_a_def dr_s_def dr_b_def dr_c_def unsettled_def)

theorem delete_reservations_soft_settle_witness:
  "delete_block_reservations tick ''alice'' False [''rc'', ''rs'', ''ra''] ''corp'' ''blk1''
       [spaceA, del_corp]
     = (Inr NoContent,
        [spaceA,
         del_corp\<lparr>space_blocks :=
           [del_block\<lparr>block_resv :=
              [dr_a\<lparr>settledOn := Some 1700000000, settledBy := Some ''alice'',
                    resv_status := ''cancelledByUser''\<rparr>,
               dr_s, dr_b,
               dr_c\<lparr>settledOn := Some 1700000001, settledBy := Some ''alice'',
                    resv_status := ''cancelledByUser''\<rparr>]\<rparr>]\<rparr>])
   \<and> delete_block_reservations tick ''alice'' False [''rb''] ''corp'' ''blk1'' [spaceA, del_corp]
     = (Inl (HTTPException 403 ''Users can only delete their own reservations.''),
        [spaceA, del_corp])
   \<and> delete_block_reservations tick ''carol'' True [''rb'', ''rs''] ''corp'' ''blk1''
       [spaceA, del_corp]
     = (Inr NoContent,
        [spaceA,
         del_corp\<lparr>space_blocks :=
           [del_block\<lparr>block_resv :=
              [dr_a, dr_s,
               dr_b\<lparr>settledOn := Some 1700000000, settledBy := Some ''carol'',
                    resv_status := ''cancelledByUser''\<rparr>,
               dr_c]\<rparr>]\<rparr>])
   \<and> delete_block_reservation tick ''alice'' False ''corp'' ''blk1'' ''rc'' [spaceA, del_corp]
     = (Inr NoContent,
        [spaceA,
         del_corp\<lparr>space_blocks :=
           [del_block\<lparr>block_resv :=
              [dr_a, dr_s, dr_b,
               dr_c\<lparr>settledOn := Some 1700000000, settledBy := Some ''alice'',
                    resv_status := ''cancelledByUser''\<rparr>]\<rparr>]\<rparr>])
   \<and> delete_block_reservation tick ''alice'' False ''corp'' ''blk1'' ''rs'' [spaceA, del_corp]
     = (Inr NoContent, [spaceA, del_corp])
   \<and> delete_block_reservation tick ''alice'' False ''corp'' ''blk1'' ''rb'' [spaceA, del_corp]
     = (Inl (HTTPException 403 ''Users can only delete their own reservations.''),
        [spaceA, del_corp])"
proof -
  let ?resv = "[dr_a, dr_s, dr_b, dr_c]"
  have ids: "distinct (map resv_id (block_resv del_block))"
    by (simp add: del_corp_facts(5) del_resv_facts)
  have run: "delete_block_reservations tick u adm req ''corp'' ''blk1'' [spaceA, del_corp]
          = (if \<not> adm \<and> (\<exists>r\<in>set ?resv. resv_id r \<in> set req \<and> createdBy r \<noteq> u)
             then (Inl (HTTPException 403 ''Users can only delete their own reservations.''),
                   [spaceA, del_corp])
             else (Inr NoContent,
                   [spaceA,
                    del_corp\<lparr>space_blocks :=
                      [del_block\<lparr>block_resv :=
                         map (\<lambda>j. if unsettled (?resv ! j) \<and> resv_id (?resv ! j) \<in> set req
                                   then (?resv ! j)
                                          \<lparr>settledOn := Some (tick (length (filter
                                               (\<lambda>r. unsettled r \<and> resv_id r \<in> set req)
                                               (take j ?resv)))),
                                            settledBy := Some u,
                                            resv_status := ''cancelledByUser''\<rparr>
                                   else ?resv ! j)
                           [0..<length ?resv]\<rparr>]\<rparr>]))
      \<and> delete_block_reservation tick u adm ''corp'' ''blk1'' rid [spaceA, del_corp]
          = (if \<not> adm \<and> createdBy tr \<noteq> u
             then (Inl (HTTPException 403 ''Users can only delete their own reservations.''),
                   [spaceA, del_corp])
             else if unsettled tr
             then (Inr NoContent,
                   [spaceA,
                    del_corp\<lparr>space_blocks :=
                      [del_block\<lparr>block_resv :=
                         ?resv[length (takeWhile (\<lambda>x. resv_id x \<noteq> rid) ?resv) :=
                                 tr\<lparr>settledOn := Some (tick 0), settledBy := Some u,
                                    resv_status := ''cancelledByUser''\<rparr>]\<rparr>]\<rparr>])
             else (Inr NoContent, [spaceA, del_corp]))"
    if req: "distinct req \<and> set req \<subseteq> set (map resv_id (block_resv del_block))"
      and one: "find (\<lambda>x. resv_id x = rid) (block_resv del_block) = Some tr"
    for u adm req rid tr
  proof -
    obtain i where i: "i < length (space_blocks del_corp)"
      and bulk: "distinct req \<and> set req \<subseteq> set (map resv_id (block_resv del_block)) \<longrightarrow>
        delete_block_reservations tick u adm req ''corp'' ''blk1'' [spaceA, del_corp]
          = (if \<not> adm \<and> (\<exists>r\<in>set (block_resv del_block).
                                   resv_id r \<in> set req \<and> createdBy r \<noteq> u)
             then (Inl (HTTPException 403 ''Users can only delete their own reservations.''),
                   [spaceA, del_corp])
             else (Inr NoContent,
                   map (\<lambda>c. if space_id c = space_id del_corp
                       then del_corp\<lparr>space_blocks :=
                              (space_blocks del_corp)
                                [i := del_block\<lparr>block_resv :=
                                   map (\<lambda>j. if unsettled (block_resv del_block ! j)
                                                \<and> resv_id (block_resv del_block ! j) \<in> set req
                                             then (block_resv del_block ! j)
                                                    \<lparr>settledOn := Some (tick (length (filter
                                                         (\<lambda>r. unsettled r \<and> resv_id r \<in> set req)
                                                         (take j (block_resv del_block))))),
                                                      settledBy := Some u,
                                                      resv_status := ''cancelledByUser''\<rparr>
                                             else block_resv del_block ! j)
                                     [0..<length (block_resv del_block)]\<rparr>]\<rparr>
                       else c) [spaceA, del_corp]))"
      and single: "\<forall>target_reservation.
          find (\<lambda>x. resv_id x = rid) (block_resv del_block) = Some target_reservation \<longrightarrow>
          (\<exists>k. k < length (block_resv del_block) \<and> block_resv del_block ! k = target_reservation
            \<and> (\<forall>m<k. resv_id (block_resv del_block ! m) \<noteq> rid)
            \<and> delete_block_reservation tick u adm ''corp'' ''blk1'' rid [spaceA, del_corp]
              = (if \<not> adm \<and> createdBy target_reservation \<noteq> u
                 then (Inl (HTTPException 403 ''Users can only delete their own reservations.''),
                       [spaceA, del_corp])
                 else if unsettled target_reservation
                 then (Inr NoContent,
                       map (\<lambda>c. if space_id c = space_id del_corp
                         then del_corp\<lparr>space_blocks :=
                                (space_blocks del_corp)
                                  [i := del_block\<lparr>block_resv :=
                                     (block_resv del_block)
                                       [k := target_reservation
                                          \<lparr>settledOn := Some (tick 0),
                                            settledBy := Some u,
                                            resv_status := ''cancelledByUser''\<rparr>]\<rparr>]\<rparr>
                         else c) [spaceA, del_corp])
                 else (Inr NoContent, [spaceA, del_corp])))"
      using delete_reservations_soft_settle[OF del_corp_facts(1) del_corp_facts(2) ids,
          where clock = tick and user_name = u and is_admin = adm and req = req
            and reservation = rid]
      by (elim exE conjE) (rule that)
    have i0: "i = 0" using i by (simp add: del_corp_facts(3))
    obtain k where k: "k < length (block_resv del_block)" "block_resv del_block ! k = tr"
        "\<forall>m<k. resv_id (block_resv del_block ! m) \<noteq> rid"
      and res: "delete_block_reservation tick u adm ''corp'' ''blk1'' rid [spaceA, del_corp]
              = (if \<not> adm \<and> createdBy tr \<noteq> u
                 then (Inl (HTTPException 403 ''Users can only delete their own reservations.''),
                       [spaceA, del_corp])
                 else if unsettled tr
                 then (Inr NoContent,
                       map (\<lambda>c. if space_id c = space_id del_corp
                         then del_corp\<lparr>space_blocks :=
                                (space_blocks del_corp)
                                  [i := del_block\<lparr>block_resv :=
                                     (block_resv del_block)
                                       [k := tr\<lparr>settledOn := Some (tick 0), settledBy := Some u,
                                                resv_status := ''cancelledByUser''\<rparr>]\<rparr>]\<rparr>
                         else c) [spaceA, del_corp])
                 else (Inr NoContent, [spaceA, del_corp]))"
      using single one by blast
    have ptr: "resv_id tr = rid" using find_split[OF one] by blast
    have idx: "length (takeWhile (\<lambda>x. \<not> resv_id x = rid) (block_resv del_block)) = k"
      using k ptr by (intro first_index) simp_all
    have a: "delete_block_reservations tick u adm req ''corp'' ''blk1'' [spaceA, del_corp]
          = (if \<not> adm \<and> (\<exists>r\<in>set ?resv. resv_id r \<in> set req \<and> createdBy r \<noteq> u)
             then (Inl (HTTPException 403 ''Users can only delete their own reservations.''),
                   [spaceA, del_corp])
             else (Inr NoContent,
                   [spaceA,
                    del_corp\<lparr>space_blocks :=
                      [del_block\<lparr>block_resv :=
                         map (\<lambda>j. if unsettled (?resv ! j) \<and> resv_id (?resv ! j) \<in> set req
                                   then (?resv ! j)
                                          \<lparr>settledOn := Some (tick (length (filter
                                               (\<lambda>r. unsettled r \<and> resv_id r \<in> set req)
                                               (take j ?resv)))),
                                            settledBy := Some u,
                                            resv_status := ''cancelledByUser''\<rparr>
                                   else ?resv ! j)
                           [0..<length ?resv]\<rparr>]\<rparr>]))"
      using bulk req unfolding i0 del_corp_facts(3) del_corp_facts(5)
      by (simp add: del_corp_facts(4) del: upt_Suc take_Cons' nth_Cons' set_simps)
    have b: "delete_block_reservation tick u adm ''corp'' ''blk1'' rid [spaceA, del_corp]
          = (if \<not> adm \<and> createdBy tr \<noteq> u
             then (Inl (HTTPException 403 ''Users can only delete their own reservations.''),
                   [spaceA, del_corp])
             else if unsettled tr
             then (Inr NoContent,
                   [spaceA,
                    del_corp\<lparr>space_blocks :=
                      [del_block\<lparr>block_resv :=
                         ?resv[length (takeWhile (\<lambda>x. resv_id x \<noteq> rid) ?resv) :=
                                 tr\<lparr>settledOn := Some (tick 0), settledBy := Some u,
                                    resv_status := ''cancelledByUser''\<rparr>]\<rparr>]\<rparr>])
             else (Inr NoContent, [spaceA, del_corp]))"
      using res unfolding idx[symmetric] i0 del_corp_facts(3) del_corp_facts(5)
      by (simp add: del_corp_facts(4) list_update_code(2) del: list_update.simps takeWhile.simps)
    show ?thesis using a b by (rule conjI)
  qed
  have r1: "distinct [''rc'', ''rs'', ''ra''] \<and> set [''rc'', ''rs'', ''ra''] \<subseteq> set (map resv_id (block_resv del_block))"
    and r2: "distinct [''rb''] \<and> set [''rb''] \<subseteq> set (map resv_id (block_resv del_block))"
    and r3: "distinct [''rb'', ''rs''] \<and> set [''rb'', ''rs''] \<subseteq> set (map resv_id (block_resv del_block))"
    by (simp_all add: del_corp_facts(5) del_resv_facts)
  have f1: "find (\<lambda>x. resv_id x = ''rc'') (block_resv del_block) = Some dr_c"
    and f2: "find (\<lambda>x. resv_id x = ''rs'') (block_resv del_block) = Some dr_s"
    and f3: "find (\<lambda>x. resv_id x = ''rb'') (block_resv del_block) = Some dr_b"
    by (simp_all add: del_corp_facts(5) del_resv_facts)
  note A = run[OF r1 f1, of "''alice''" False]
  note B = run[OF r2 f3, of "''alice''" False]
  note C = run[OF r3 f2, of "''carol''" True]
  note D = run[OF r2 f2, of "''alice''" False]
  show ?thesis
    apply (intro conjI)
    subgoal using A by (simp add: del_resv_facts tick_def)
    subgoal using B by (simp add: del_resv_facts tick_def)
    subgoal using C by (simp add: del_resv_facts tick_def)
    subgoal using A by (simp add: del_resv_facts tick_def)
    subgoal using D by (simp add: del_resv_facts tick_def)
    subgoal using B by (simp add: del_resv_facts tick_def)
    done
qed

end
